theory Spec2Isabelle
  imports Complex_Main "HOL-Library.AList" "HOL-Library.Sublist"
begin

section \<open>The API service: state and cart store\<close>

text \<open>
  The service class \<^verbatim>\<open>HesburgerApiService\<close> keeps the credential, the refresh flag, the
  refresh broadcast subject and the cart subject as private fields, and mirrors credential
  and cart into the browser's \<^verbatim>\<open>localStorage\<close>. Its methods are embedded as functions on a
  record of these fields.

  Numbers: JavaScript numbers are modelled as exact values, \<open>int\<close> where the code holds an
  integer (identifiers, quantities, epoch milliseconds) and \<open>rat\<close> where it holds a price.
  IEEE-754 rounding, \<^verbatim>\<open>NaN\<close> and the infinities are outside the model.
\<close>

subsection \<open>Product and cart line\<close>

text \<open>
  \<^verbatim>\<open>interface Product\<close> and \<^verbatim>\<open>interface CartItem extends Product\<close>. The fields read by the
  cart operations are kept; the optional display fields (image, allergens, ...) are carried
  along unchanged by the spread \<^verbatim>\<open>{...product}\<close> and are left out. The field \<^verbatim>\<open>id\<close> is
  written \<open>id'\<close>.
\<close>

record product =
  id' :: int
  name :: string
  description :: string
  price :: rat
  category :: string
  isAvailable :: "bool option"

record cartItem = product +
  quantity :: int
  addedAt :: "int option"

subsection \<open>Service state\<close>

text \<open>
  What \<^verbatim>\<open>localStorage\<close> holds under a key: the token text, the expiry, or the serialised
  cart (the JSON text is abstracted to the list it encodes).
\<close>

datatype stored = StoredToken string | StoredExpiry int | StoredCart "cartItem list"

text \<open>
  The effects of the service a caller or the remote side can observe, in the order they
  happen: a login request posted, a wrapped request function invoked, a cart state
  published on \<^verbatim>\<open>cartSubject\<close>, a storage key written or removed.
\<close>

datatype effect =
    LoginPosted
  | RequestInvoked
  | CartPublished "cartItem list"
  | StorageSet string
  | StorageRemoved string

record service =
  authToken :: "string option"
  tokenExpiryTime :: int
  isRefreshingToken :: bool
  refreshTokenSubject :: bool
  cartSubject :: "cartItem list"
  localStorage :: "(string \<times> stored) list"
  effects :: "effect list"

text \<open>The field initialisers of the class, before the constructor loads anything.\<close>

definition newService :: service where
  "newService =
     \<lparr> authToken = None, tokenExpiryTime = 0, isRefreshingToken = False,
       refreshTokenSubject = False, cartSubject = [], localStorage = [], effects = [] \<rparr>"

definition setItem :: "string \<Rightarrow> stored \<Rightarrow> service \<Rightarrow> service" where
  "setItem k v s =
     s\<lparr> localStorage := AList.update k v (localStorage s),
        effects := effects s @ [StorageSet k] \<rparr>"

definition removeItem :: "string \<Rightarrow> service \<Rightarrow> service" where
  "removeItem k s =
     s\<lparr> localStorage := AList.delete k (localStorage s),
        effects := effects s @ [StorageRemoved k] \<rparr>"

text \<open>\<^verbatim>\<open>cartSubject.next(cart)\<close>: the subject's value is replaced and delivered to subscribers.\<close>

definition cartNext :: "cartItem list \<Rightarrow> service \<Rightarrow> service" where
  "cartNext cart s = s\<lparr> cartSubject := cart, effects := effects s @ [CartPublished cart] \<rparr>"

text \<open>
  \<^verbatim>\<open>saveCartToStorage\<close> writes the subject's current value. A failing write is caught and
  logged by the source; the model takes the write to succeed.
\<close>

definition saveCartToStorage :: "service \<Rightarrow> service" where
  "saveCartToStorage s = setItem ''hesburger_cart'' (StoredCart (cartSubject s)) s"

subsection \<open>Cart operations\<close>

text \<open>
  \<^verbatim>\<open>existingItem.quantity += quantity\<close> and \<^verbatim>\<open>item.quantity = quantity\<close> assign to the
  object that \<^verbatim>\<open>find\<close> returned: the first line whose id matches. The array passed to
  \<^verbatim>\<open>next\<close> is a copy that shares its line objects with the arrays published before; the
  model records a published cart by its value at the time of publication.
\<close>

fun updateFirst :: "('a \<Rightarrow> bool) \<Rightarrow> ('a \<Rightarrow> 'a) \<Rightarrow> 'a list \<Rightarrow> 'a list" where
  "updateFirst P f [] = []"
| "updateFirst P f (x # xs) = (if P x then f x # xs else x # updateFirst P f xs)"

text \<open>The new line \<^verbatim>\<open>{...product, quantity, addedAt: new Date()}\<close>.\<close>

definition newCartItem :: "int \<Rightarrow> product \<Rightarrow> int \<Rightarrow> cartItem" where
  "newCartItem now p q =
     \<lparr> id' = id' p, name = name p, description = description p, price = price p,
       category = category p, isAvailable = isAvailable p,
       quantity = q, addedAt = Some now \<rparr>"

definition addToCart :: "int \<Rightarrow> product \<Rightarrow> int \<Rightarrow> service \<Rightarrow> service" where
  "addToCart now p q s =
     (let currentCart = cartSubject s;
          cart' = (case find (\<lambda>item. id' item = id' p) currentCart of
                     Some existingItem \<Rightarrow>
                       updateFirst (\<lambda>item. id' item = id' p)
                         (\<lambda>item. item\<lparr> quantity := quantity item + q \<rparr>) currentCart
                   | None \<Rightarrow> currentCart @ [newCartItem now p q])
      in saveCartToStorage (cartNext cart' s))"

definition removeFromCart :: "int \<Rightarrow> service \<Rightarrow> service" where
  "removeFromCart productId s =
     saveCartToStorage (cartNext (filter (\<lambda>item. id' item \<noteq> productId) (cartSubject s)) s)"

definition updateCartQuantity :: "int \<Rightarrow> int \<Rightarrow> service \<Rightarrow> service" where
  "updateCartQuantity productId q s =
     (let currentCart = cartSubject s in
      case find (\<lambda>item. id' item = productId) currentCart of
        Some item \<Rightarrow>
          if q \<le> 0 then removeFromCart productId s
          else saveCartToStorage
                 (cartNext (updateFirst (\<lambda>item. id' item = productId)
                              (\<lambda>item. item\<lparr> quantity := q \<rparr>) currentCart) s)
      | None \<Rightarrow> s)"

definition clearCart :: "service \<Rightarrow> service" where
  "clearCart s = removeItem ''hesburger_cart'' (cartNext [] s)"

text \<open>\<^verbatim>\<open>reduce((total, item) => total + item.price * item.quantity, 0)\<close>.\<close>

definition getCartTotal :: "service \<Rightarrow> rat" where
  "getCartTotal s = foldl (\<lambda>total item. total + price item * of_int (quantity item)) 0 (cartSubject s)"

definition getCartItemCount :: "service \<Rightarrow> int" where
  "getCartItemCount s = foldl (\<lambda>n item. n + quantity item) 0 (cartSubject s)"

section \<open>JavaScript values\<close>

text \<open>
  Remote payloads are untyped (\<^verbatim>\<open>any\<close>): a JSON value, or \<^verbatim>\<open>undefined\<close> for a property
  that is absent. Objects are association lists read with \<open>map_of\<close>.
\<close>

datatype jsval =
    JUndefined
  | JNull
  | JBool bool
  | JNum rat
  | JStr string
  | JArr "jsval list"
  | JObj "(string \<times> jsval) list"

text \<open>What a failed observable or a \<^verbatim>\<open>throw\<close> carries. Only an HTTP error response has a
  \<^verbatim>\<open>status\<close>; on the others \<^verbatim>\<open>error.status\<close> is \<^verbatim>\<open>undefined\<close>.\<close>

datatype error =
    HttpErrorResponse int string
  | TimeoutError
  | Error string
  | TypeError string

fun status :: "error \<Rightarrow> int option" where
  "status (HttpErrorResponse st msg) = Some st"
| "status _ = None"

fun message :: "error \<Rightarrow> string" where
  "message (HttpErrorResponse st msg) = msg"
| "message TimeoutError = ''Timeout has occurred''"
| "message (Error msg) = msg"
| "message (TypeError msg) = msg"

fun truthy :: "jsval \<Rightarrow> bool" where
  "truthy JUndefined = False"
| "truthy JNull = False"
| "truthy (JBool b) = b"
| "truthy (JNum n) = (n \<noteq> 0)"
| "truthy (JStr s) = (s \<noteq> [])"
| "truthy (JArr vs) = True"
| "truthy (JObj kvs) = True"

fun nullish :: "jsval \<Rightarrow> bool" where
  "nullish JUndefined = True"
| "nullish JNull = True"
| "nullish _ = False"

text \<open>
  \<^verbatim>\<open>v.k\<close> on a receiver that is neither \<^verbatim>\<open>null\<close> nor \<^verbatim>\<open>undefined\<close>. None of the keys the
  service reads from a payload is a built-in property of a string, number, boolean or
  array, so such a receiver gives \<^verbatim>\<open>undefined\<close>.
\<close>

fun getProp :: "jsval \<Rightarrow> string \<Rightarrow> jsval" where
  "getProp (JObj kvs) k = (case map_of kvs k of Some v \<Rightarrow> v | None \<Rightarrow> JUndefined)"
| "getProp _ k = JUndefined"

text \<open>\<^verbatim>\<open>v?.k\<close> (optional chaining) and \<^verbatim>\<open>v.k\<close> as it throws on \<^verbatim>\<open>null\<close> and \<^verbatim>\<open>undefined\<close>.\<close>

definition optProp :: "jsval \<Rightarrow> string \<Rightarrow> jsval" where
  "optProp v k = (if nullish v then JUndefined else getProp v k)"

definition readProp :: "jsval \<Rightarrow> string \<Rightarrow> error + jsval" where
  "readProp v k =
     (if nullish v then Inl (TypeError ''Cannot read properties of null or undefined'')
      else Inr (getProp v k))"

text \<open>\<^verbatim>\<open>a || b\<close>.\<close>

definition orElse :: "jsval \<Rightarrow> jsval \<Rightarrow> jsval" where
  "orElse a b = (if truthy a then a else b)"

fun isArray :: "jsval \<Rightarrow> bool" where
  "isArray (JArr vs) = True"
| "isArray _ = False"

fun isObject :: "jsval \<Rightarrow> bool" where
  "isObject (JObj kvs) = True"
| "isObject _ = False"

subsection \<open>Strings\<close>

text \<open>
  A string is a list of 8-bit characters. \<^verbatim>\<open>toLowerCase\<close>, \<^verbatim>\<open>trim\<close> and \<^verbatim>\<open>\s\<close> are modelled on
  ASCII; \<^verbatim>\<open>length\<close> counts characters of this list.
\<close>

definition lowerChar :: "char \<Rightarrow> char" where
  "lowerChar c =
     (let n = (of_char c :: nat) in if 65 \<le> n \<and> n \<le> 90 then char_of (n + 32) else c)"

definition toLowerCase :: "string \<Rightarrow> string" where
  "toLowerCase s = map lowerChar s"

definition includes' :: "string \<Rightarrow> string \<Rightarrow> bool" where
  "includes' text' k = sublist k text'"

definition isSpace :: "char \<Rightarrow> bool" where
  "isSpace c = ((of_char c :: nat) \<in> {9, 10, 11, 12, 13, 32})"

definition trim :: "string \<Rightarrow> string" where
  "trim s = rev (dropWhile isSpace (rev (dropWhile isSpace s)))"

text \<open>Decimal digits of an integer, as \<^verbatim>\<open>Number.prototype.toString\<close> prints an integer.\<close>

fun natToString :: "nat \<Rightarrow> string" where
  "natToString n =
     (if n < 10 then [char_of (48 + n)]
      else natToString (n div 10) @ [char_of (48 + n mod 10)])"

declare natToString.simps [simp del]

definition intToString :: "int \<Rightarrow> string" where
  "intToString i = (if i < 0 then CHR ''-'' # natToString (nat (- i)) else natToString (nat i))"

text \<open>
  Library functions of the host that the service calls and whose text is not part of the
  repository: the printing of a non-integer number, \<^verbatim>\<open>parseFloat\<close> (\<open>None\<close> for \<^verbatim>\<open>NaN\<close>) and
  \<^verbatim>\<open>Date.prototype.toISOString\<close>. Every result below holds for all of them.
\<close>

record builtins =
  numberToString :: "rat \<Rightarrow> string"
  parseFloat :: "string \<Rightarrow> rat option"
  toISOString :: "int \<Rightarrow> string"

fun joinComma :: "string list \<Rightarrow> string" where
  "joinComma [] = []"
| "joinComma [x] = x"
| "joinComma (x # y # ys) = x @ '','' @ joinComma (y # ys)"

text \<open>
  \<^verbatim>\<open>String(v)\<close> for a JSON value. An object is converted by its \<^verbatim>\<open>toString\<close> method: the
  inherited one gives \<^verbatim>\<open>[object Object]\<close>, but a key \<^verbatim>\<open>toString\<close> of the object's own hides it
  with a value that cannot be called, the inherited \<^verbatim>\<open>valueOf\<close> returns the object itself, and
  the conversion throws a \<^verbatim>\<open>TypeError\<close>. An array is joined with commas, \<^verbatim>\<open>null\<close> and
  \<^verbatim>\<open>undefined\<close> elements giving the empty string; the first element that throws ends the
  conversion.
\<close>

fun jsString :: "builtins \<Rightarrow> jsval \<Rightarrow> error + string"
  and jsStrings :: "builtins \<Rightarrow> jsval list \<Rightarrow> error + string list" where
  "jsString b JUndefined = Inr ''undefined''"
| "jsString b JNull = Inr ''null''"
| "jsString b (JBool x) = Inr (if x then ''true'' else ''false'')"
| "jsString b (JNum n) = Inr (numberToString b n)"
| "jsString b (JStr s) = Inr s"
| "jsString b (JArr vs) =
     (case jsStrings b vs of Inl e \<Rightarrow> Inl e | Inr strs \<Rightarrow> Inr (joinComma strs))"
| "jsString b (JObj kvs) =
     (if map_of kvs ''toString'' \<noteq> None
      then Inl (TypeError ''Cannot convert object to primitive value'')
      else Inr ''[object Object]'')"
| "jsStrings b [] = Inr []"
| "jsStrings b (v # vs) =
     (case (if nullish v then Inr [] else jsString b v) of
        Inl e \<Rightarrow> Inl e
      | Inr str \<Rightarrow> (case jsStrings b vs of Inl e \<Rightarrow> Inl e | Inr strs \<Rightarrow> Inr (str # strs)))"

text \<open>\<^verbatim>\<open>Math.round(x * 100) / 100\<close>; \<^verbatim>\<open>Math.round\<close> rounds a half towards plus infinity.\<close>

definition mathRound :: "rat \<Rightarrow> int" where
  "mathRound x = \<lfloor>x + 1 / 2\<rfloor>"

definition round2 :: "rat \<Rightarrow> rat" where
  "round2 x = of_int (mathRound (x * 100)) / 100"

section \<open>Token lifecycle\<close>

text \<open>\<^verbatim>\<open>!this.authToken\<close> holds for \<^verbatim>\<open>null\<close> and for the empty string.\<close>

definition hasToken :: "service \<Rightarrow> bool" where
  "hasToken s = (case authToken s of None \<Rightarrow> False | Some t \<Rightarrow> t \<noteq> [])"

text \<open>The argument \<open>now\<close> is the reading of \<^verbatim>\<open>Date.now()\<close>.\<close>

definition isTokenStillValid :: "int \<Rightarrow> service \<Rightarrow> bool" where
  "isTokenStillValid now s = (if \<not> hasToken s then False else now < tokenExpiryTime s)"

definition isTokenNearExpiry :: "int \<Rightarrow> service \<Rightarrow> bool" where
  "isTokenNearExpiry now s =
     (if \<not> hasToken s then False
      else (let twoMinutesFromNow = now + 2 * 60 * 1000 in twoMinutesFromNow \<ge> tokenExpiryTime s))"

definition clearToken :: "service \<Rightarrow> service" where
  "clearToken s =
     removeItem ''hesburger_token_expiry''
       (removeItem ''hesburger_auth_token'' (s\<lparr> authToken := None, tokenExpiryTime := 0 \<rparr>))"

definition saveTokenToStorage :: "service \<Rightarrow> service" where
  "saveTokenToStorage s =
     setItem ''hesburger_token_expiry'' (StoredExpiry (tokenExpiryTime s))
       (setItem ''hesburger_auth_token''
          (StoredToken (case authToken s of None \<Rightarrow> [] | Some t \<Rightarrow> t)) s)"

text \<open>\<^verbatim>\<open>token.replace(/^Bearer\s+/i, '')\<close>.\<close>

definition stripBearer :: "string \<Rightarrow> string" where
  "stripBearer t =
     (if toLowerCase (take 6 t) = ''bearer'' \<and> takeWhile isSpace (drop 6 t) \<noteq> []
      then dropWhile isSpace (drop 6 t) else t)"

definition setAuthToken :: "int \<Rightarrow> string \<Rightarrow> service \<Rightarrow> service" where
  "setAuthToken now token s =
     (let cleanToken = trim (stripBearer token) in
      saveTokenToStorage
        (s\<lparr> authToken := Some cleanToken, tokenExpiryTime := now + 23 * 60 * 60 * 1000 \<rparr>))"

definition possibleTokenPaths :: "jsval \<Rightarrow> jsval list" where
  "possibleTokenPaths response =
     [ optProp (optProp response ''payload'') ''token'',
       optProp (optProp response ''payload'') ''accessToken'',
       optProp (optProp response ''payload'') ''access_token'',
       optProp (optProp response ''payload'') ''authToken'',
       optProp (optProp response ''payload'') ''jwt'',
       optProp response ''token'',
       optProp response ''accessToken'',
       optProp response ''access_token'',
       optProp response ''authToken'',
       optProp response ''jwt'',
       optProp (optProp response ''data'') ''token'',
       optProp (optProp response ''data'') ''accessToken'',
       optProp (optProp response ''result'') ''token'' ]"

fun firstToken :: "jsval list \<Rightarrow> string option" where
  "firstToken [] = None"
| "firstToken (JStr t # vs) = (if length t > 10 then Some t else firstToken vs)"
| "firstToken (v # vs) = firstToken vs"

definition extractTokenFromResponse :: "jsval \<Rightarrow> string option" where
  "extractTokenFromResponse response = firstToken (possibleTokenPaths response)"

definition handleError :: "error \<Rightarrow> error" where
  "handleError e =
     Error (case status e of
              Some st \<Rightarrow>
                if st = 0 then ''Cannot connect to server - check network or CORS''
                else if st = 401 then ''Unauthorized - token expired or invalid''
                else if st = 403 then ''Forbidden - insufficient permissions''
                else if st = 404 then ''Endpoint not found''
                else if st = 500 then ''Server error - try again later''
                else ''Error '' @ intToString st @ '': '' @ message e
            | None \<Rightarrow> ''Error undefined: '' @ message e)"

subsection \<open>Login\<close>

text \<open>
  The remote side is an oracle: \<open>post k\<close> is what the \<open>k\<close>-th login request (counted from 0)
  settles with, an error standing for a transport failure, a non-2xx status or the
  ten-second timeout; every remote request is taken to settle. Subscribing to \<^verbatim>\<open>login()\<close> posts the request; \<open>loginSettled\<close> is what
  its \<^verbatim>\<open>map\<close> and \<^verbatim>\<open>catchError\<close> operators do when the request settles. The self-test that a
  successful login schedules half a second later is a separate call and is not part of it.
\<close>

definition countEffect :: "effect \<Rightarrow> service \<Rightarrow> nat" where
  "countEffect e s = length (filter (\<lambda>x. x = e) (effects s))"

definition loginFailed :: "error \<Rightarrow> service \<Rightarrow> (error + jsval) \<times> service" where
  "loginFailed e s =
     (Inl (handleError e), s\<lparr> isRefreshingToken := False, refreshTokenSubject := False \<rparr>)"

definition loginSettled :: "int \<Rightarrow> error + jsval \<Rightarrow> service \<Rightarrow> (error + jsval) \<times> service" where
  "loginSettled now outcome s =
     (case outcome of
        Inr response \<Rightarrow>
          (case extractTokenFromResponse response of
             Some token \<Rightarrow>
               (Inr response,
                (setAuthToken now token s)\<lparr> isRefreshingToken := False, refreshTokenSubject := True \<rparr>)
           | None \<Rightarrow> loginFailed (Error ''No authentication token received'') s)
      | Inl e \<Rightarrow> loginFailed e s)"

definition loginPosted :: "service \<Rightarrow> service" where
  "loginPosted s = s\<lparr> effects := effects s @ [LoginPosted] \<rparr>"

text \<open>One subscription to \<^verbatim>\<open>login()\<close>, run until the request settles. The clock reading is
  held fixed while a call runs.\<close>

definition login :: "(nat \<Rightarrow> error + jsval) \<Rightarrow> int \<Rightarrow> service \<Rightarrow> (error + jsval) \<times> service" where
  "login post now s = loginSettled now (post (countEffect LoginPosted s)) (loginPosted s)"

text \<open>The remote calls among the effects: login requests posted and request functions
  invoked, in order.\<close>

definition httpTrace :: "service \<Rightarrow> effect list" where
  "httpTrace s = filter (\<lambda>x. x = LoginPosted \<or> x = RequestInvoked) (effects s)"

text \<open>A login request succeeds when it settles with a response that holds a usable token.\<close>

definition loginSucceeds :: "error + jsval \<Rightarrow> bool" where
  "loginSucceeds outcome =
     (case outcome of
        Inr response \<Rightarrow> extractTokenFromResponse response \<noteq> None
      | Inl e \<Rightarrow> False)"

subsection \<open>Refresh and the authenticated wrapper\<close>

text \<open>
  \<^verbatim>\<open>refreshToken()\<close> returns one of two observables: the pipe on \<^verbatim>\<open>refreshTokenSubject\<close> when a
  refresh is in flight, else \<^verbatim>\<open>this.login()\<close>, after setting the flag and discarding the
  credential. The call and the subscription are separate steps, since \<^verbatim>\<open>retry\<close> subscribes
  again to an observable that was built once.
\<close>

datatype refreshSource = RefreshWait | RefreshLogin

definition refreshToken :: "service \<Rightarrow> refreshSource \<times> service" where
  "refreshToken s =
     (if isRefreshingToken s then (RefreshWait, s)
      else (RefreshLogin, clearToken (s\<lparr> isRefreshingToken := True \<rparr>)))"

text \<open>
  \<^verbatim>\<open>refreshTokenSubject\<close> is a \<^verbatim>\<open>BehaviorSubject\<close>: a subscriber receives the current value at
  once, and every later value. \<open>refreshWait\<close> and \<open>subjectPipe\<close> are the \<^verbatim>\<open>switchMap\<close> callbacks
  of \<^verbatim>\<open>refreshToken\<close> and \<^verbatim>\<open>ensureAuthenticated\<close>, applied to a value \<open>success\<close> the subject
  delivers.
\<close>

definition refreshWait :: "bool \<Rightarrow> error + jsval" where
  "refreshWait success = (if success then Inr (JBool True) else Inl (Error ''Token refresh failed''))"

definition subjectPipe :: "int \<Rightarrow> bool \<Rightarrow> service \<Rightarrow> error + unit" where
  "subjectPipe now success s =
     (if success \<and> isTokenStillValid now s then Inr () else Inl (Error ''Token refresh failed''))"

definition subscribeRefresh ::
  "(nat \<Rightarrow> error + jsval) \<Rightarrow> int \<Rightarrow> refreshSource \<Rightarrow> service \<Rightarrow> (error + jsval) \<times> service" where
  "subscribeRefresh post now src s =
     (case src of
        RefreshWait \<Rightarrow> (refreshWait (refreshTokenSubject s), s)
      | RefreshLogin \<Rightarrow> login post now s)"

datatype authSource = OfTrue | SubjectPipe | RefreshPipe refreshSource

definition ensureAuthenticated :: "int \<Rightarrow> service \<Rightarrow> authSource \<times> service" where
  "ensureAuthenticated now s =
     (if isTokenStillValid now s then (OfTrue, s)
      else if isRefreshingToken s then (SubjectPipe, s)
      else (case refreshToken s of (src, s') \<Rightarrow> (RefreshPipe src, s')))"

text \<open>One subscription to the observable \<^verbatim>\<open>ensureAuthenticated()\<close> returned, up to its first
  notification.\<close>

definition subscribeAuth ::
  "(nat \<Rightarrow> error + jsval) \<Rightarrow> int \<Rightarrow> authSource \<Rightarrow> service \<Rightarrow> (error + unit) \<times> service" where
  "subscribeAuth post now src s =
     (case src of
        OfTrue \<Rightarrow> (Inr (), s)
      | SubjectPipe \<Rightarrow> (subjectPipe now (refreshTokenSubject s) s, s)
      | RefreshPipe r \<Rightarrow>
          (case subscribeRefresh post now r s of
             (Inl e, s') \<Rightarrow> (Inl e, s')
           | (Inr v, s') \<Rightarrow> (Inr (), s')))"

text \<open>
  A request function is given by what its \<open>k\<close>-th invocation settles with. \<open>invoke\<close> is
  \<^verbatim>\<open>switchMap(() => requestFn())\<close>: a synchronous throw inside \<^verbatim>\<open>requestFn\<close> is an error
  notification as well.
\<close>

definition invoke :: "(nat \<Rightarrow> error + 'a) \<Rightarrow> service \<Rightarrow> (error + 'a) \<times> service" where
  "invoke requestFn s =
     (requestFn (countEffect RequestInvoked s), s\<lparr> effects := effects s @ [RequestInvoked] \<rparr>)"

text \<open>The \<^verbatim>\<open>catchError\<close> of \<^verbatim>\<open>makeAuthenticatedRequest\<close>.\<close>

definition onRequestError ::
  "(nat \<Rightarrow> error + jsval) \<Rightarrow> int \<Rightarrow> (nat \<Rightarrow> error + 'a) \<Rightarrow> error \<Rightarrow> service \<Rightarrow> (error + 'a) \<times> service" where
  "onRequestError post now requestFn e s =
     (if status e = Some 401 \<and> \<not> isRefreshingToken s then
        (case refreshToken s of
           (src, s1) \<Rightarrow>
             (case subscribeRefresh post now src s1 of
                (Inl retryError, s2) \<Rightarrow> (Inl retryError, s2)
              | (Inr v, s2) \<Rightarrow> invoke requestFn s2))
      else (Inl e, s))"

definition subscribeRequest ::
  "(nat \<Rightarrow> error + jsval) \<Rightarrow> int \<Rightarrow> (nat \<Rightarrow> error + 'a) \<Rightarrow> authSource \<Rightarrow> service \<Rightarrow> (error + 'a) \<times> service" where
  "subscribeRequest post now requestFn src s =
     (case subscribeAuth post now src s of
        (Inl e, s1) \<Rightarrow> onRequestError post now requestFn e s1
      | (Inr u, s1) \<Rightarrow>
          (case invoke requestFn s1 of
             (Inl e, s2) \<Rightarrow> onRequestError post now requestFn e s2
           | (Inr v, s2) \<Rightarrow> (Inr v, s2)))"

text \<open>The call of \<^verbatim>\<open>makeAuthenticatedRequest\<close> followed by one subscription.\<close>

definition makeAuthenticatedRequest ::
  "(nat \<Rightarrow> error + jsval) \<Rightarrow> int \<Rightarrow> (nat \<Rightarrow> error + 'a) \<Rightarrow> service \<Rightarrow> (error + 'a) \<times> service" where
  "makeAuthenticatedRequest post now requestFn s =
     (case ensureAuthenticated now s of (src, s0) \<Rightarrow> subscribeRequest post now requestFn src s0)"

subsection \<open>Callers that arrive while a login is in flight\<close>

text \<open>
  Execution is single-threaded: callers run one after the other within a turn of the event
  loop, and a login request settles in a later turn. \<open>callerArrives\<close> is one caller invoking
  \<^verbatim>\<open>ensureAuthenticated()\<close> and subscribing to the result within the same turn; \<open>None\<close> says
  that the caller's own login request is now in flight and has notified nothing yet.
\<close>

definition callerArrives :: "int \<Rightarrow> service \<Rightarrow> (error + unit) option \<times> service" where
  "callerArrives now s =
     (case ensureAuthenticated now s of
        (OfTrue, s') \<Rightarrow> (Some (Inr ()), s')
      | (SubjectPipe, s') \<Rightarrow> (Some (subjectPipe now (refreshTokenSubject s') s'), s')
      | (RefreshPipe RefreshWait, s') \<Rightarrow>
          (Some (case refreshWait (refreshTokenSubject s') of Inl e \<Rightarrow> Inl e | Inr v \<Rightarrow> Inr ()), s')
      | (RefreshPipe RefreshLogin, s') \<Rightarrow> (None, loginPosted s'))"

fun callersArrive :: "int \<Rightarrow> nat \<Rightarrow> service \<Rightarrow> (error + unit) option list \<times> service" where
  "callersArrive now 0 s = ([], s)"
| "callersArrive now (Suc n) s =
     (case callerArrives now s of
        (r, s1) \<Rightarrow> (case callersArrive now n s1 of (rs, s2) \<Rightarrow> (r # rs, s2)))"

text \<open>
  \<open>n\<close> callers arrive in one turn at time \<open>now\<close>; the login request that is in flight, if
  any, settles with \<open>outcome\<close> at time \<open>now'\<close>. The result lists what each caller was
  notified of first, in the order of arrival.
\<close>

definition concurrentCallers ::
  "int \<Rightarrow> nat \<Rightarrow> int \<Rightarrow> error + jsval \<Rightarrow> service \<Rightarrow> (error + unit) list \<times> service" where
  "concurrentCallers now n now' outcome s =
     (case callersArrive now n s of
        (rs, s1) \<Rightarrow>
          (if None \<in> set rs then
             (case loginSettled now' outcome s1 of
                (r, s2) \<Rightarrow>
                  (map (\<lambda>x. case x of
                               None \<Rightarrow> (case r of Inl e \<Rightarrow> Inl e | Inr v \<Rightarrow> Inr ())
                             | Some y \<Rightarrow> y) rs, s2))
           else (map (\<lambda>x. case x of None \<Rightarrow> Inr () | Some y \<Rightarrow> y) rs, s1)))"

section \<open>Response normalizer\<close>

text \<open>
  The helpers below read properties of the payload and convert some of them with
  \<^verbatim>\<open>String\<close>. Both can throw: a property read on \<^verbatim>\<open>null\<close> or \<^verbatim>\<open>undefined\<close>, and the conversion
  of an object that has a \<^verbatim>\<open>toString\<close> key. A throw is the result \<open>Inl\<close>.
\<close>

definition nullRead :: error where
  "nullRead = TypeError ''Cannot read properties of null or undefined''"

subsection \<open>Category\<close>

text \<open>The local \<^verbatim>\<open>searchText\<close> of \<^verbatim>\<open>mapApiCategory\<close>: the three texts are computed in the order
  name, category, alias.\<close>

definition searchText :: "builtins \<Rightarrow> jsval \<Rightarrow> error + string" where
  "searchText b apiProduct =
     (if nullish apiProduct then Inl nullRead
      else
        case jsString b (orElse (getProp apiProduct ''name'') (JStr [])) of
          Inl e \<Rightarrow> Inl e
        | Inr name' \<Rightarrow>
            (case jsString b
                    (orElse (orElse (getProp apiProduct ''category'') (getProp apiProduct ''categoryName''))
                       (JStr [])) of
               Inl e \<Rightarrow> Inl e
             | Inr category' \<Rightarrow>
                 (case jsString b (orElse (getProp apiProduct ''alias'') (JStr [])) of
                    Inl e \<Rightarrow> Inl e
                  | Inr alias \<Rightarrow>
                      Inr (toLowerCase name' @ '' '' @ toLowerCase category' @ '' '' @ toLowerCase alias))))"

definition mapApiCategory :: "builtins \<Rightarrow> jsval \<Rightarrow> error + string" where
  "mapApiCategory b apiProduct =
     (case searchText b apiProduct of
        Inl e \<Rightarrow> Inl e
      | Inr text' \<Rightarrow>
          Inr (if includes' text' ''burger'' \<or> includes' text' ''big mac''
                  \<or> includes' text' ''whopper'' then ''burgers''
               else if includes' text' ''chicken'' \<or> includes' text' ''wing''
                  \<or> includes' text' ''nugget'' then ''chicken''
               else if includes' text' ''fries'' \<or> includes' text' ''ring''
                  \<or> includes' text' ''onion'' \<or> includes' text' ''potato'' then ''sides''
               else if includes' text' ''cola'' \<or> includes' text' ''drink''
                  \<or> includes' text' ''juice'' \<or> includes' text' ''coffee''
                  \<or> includes' text' ''tea'' then ''drinks''
               else if includes' text' ''ice cream'' \<or> includes' text' ''dessert''
                  \<or> includes' text' ''cake'' \<or> includes' text' ''pie'' then ''desserts''
               else ''other''))"

subsection \<open>Price\<close>

text \<open>\<^verbatim>\<open>typeof v === 'number' && v > 0\<close>, with the number.\<close>

fun positiveNumber :: "jsval \<Rightarrow> rat option" where
  "positiveNumber (JNum n) = (if n > 0 then Some n else None)"
| "positiveNumber _ = None"

text \<open>The loop over \<^verbatim>\<open>apiProduct.locationPrices\<close>: it returns at the first entry that has a
  positive numeric \<^verbatim>\<open>unitPriceWithVat\<close> or, failing that, a positive numeric \<^verbatim>\<open>price\<close>.\<close>

fun scanLocationPrices :: "jsval list \<Rightarrow> rat option" where
  "scanLocationPrices [] = None"
| "scanLocationPrices (locationPrice # rest) =
     (if truthy locationPrice \<and> positiveNumber (getProp locationPrice ''unitPriceWithVat'') \<noteq> None
      then map_option round2 (positiveNumber (getProp locationPrice ''unitPriceWithVat''))
      else if truthy locationPrice \<and> positiveNumber (getProp locationPrice ''price'') \<noteq> None
      then map_option round2 (positiveNumber (getProp locationPrice ''price''))
      else scanLocationPrices rest)"

text \<open>What one entry of the location price list offers: its positive numeric
  \<^verbatim>\<open>unitPriceWithVat\<close>, else its positive numeric \<^verbatim>\<open>price\<close>, before rounding.\<close>

definition locationPriceCandidate :: "jsval \<Rightarrow> rat option" where
  "locationPriceCandidate locationPrice =
     (if \<not> truthy locationPrice then None
      else (case positiveNumber (getProp locationPrice ''unitPriceWithVat'') of
              Some n \<Rightarrow> Some n
            | None \<Rightarrow> positiveNumber (getProp locationPrice ''price'')))"

definition priceFields :: "string list" where
  "priceFields = [''price'', ''unitPrice'', ''cost'', ''amount'', ''basePrice'']"

text \<open>What one price field offers, before rounding: its value when that is a positive
  number, or the number \<^verbatim>\<open>parseFloat\<close> reads from it when it is a string and that number is
  positive.\<close>

fun fieldCandidate :: "builtins \<Rightarrow> jsval \<Rightarrow> rat option" where
  "fieldCandidate b (JNum n) = (if n > 0 then Some n else None)"
| "fieldCandidate b (JStr str) =
     (case parseFloat b str of
        Some parsed \<Rightarrow> if parsed > 0 then Some parsed else None
      | None \<Rightarrow> None)"
| "fieldCandidate b v = None"

text \<open>One round of the loop over \<^verbatim>\<open>priceFields\<close>, for the value of the field.\<close>

fun fieldPrice :: "builtins \<Rightarrow> jsval \<Rightarrow> rat option" where
  "fieldPrice b (JNum n) = (if n > 0 then Some (round2 n) else None)"
| "fieldPrice b (JStr str) =
     (case parseFloat b str of
        Some parsed \<Rightarrow> if parsed > 0 then Some (round2 parsed) else None
      | None \<Rightarrow> None)"
| "fieldPrice b v = None"

fun scanPriceFields :: "builtins \<Rightarrow> jsval \<Rightarrow> string list \<Rightarrow> rat option" where
  "scanPriceFields b apiProduct [] = None"
| "scanPriceFields b apiProduct (field # rest) =
     (case fieldPrice b (getProp apiProduct field) of
        Some p \<Rightarrow> Some p
      | None \<Rightarrow> scanPriceFields b apiProduct rest)"

definition basePrices :: "(string \<times> rat \<times> rat) list" where
  "basePrices =
     [ (''burgers'', 15, 35), (''chicken'', 12, 28), (''sides'', 8, 18),
       (''drinks'', 5, 12), (''desserts'', 6, 15), (''other'', 10, 25) ]"

text \<open>The three assignments to \<^verbatim>\<open>multiplier\<close>, in order: a later one overwrites an earlier.\<close>

definition priceMultiplier :: "string \<Rightarrow> rat" where
  "priceMultiplier name' =
     (let m0 = 1;
          m1 = (if includes' name' ''large'' \<or> includes' name' ''big'' \<or> includes' name' ''xl''
                then 13 / 10 else m0);
          m2 = (if includes' name' ''small'' \<or> includes' name' ''mini'' then 7 / 10 else m1)
      in if includes' name' ''premium'' \<or> includes' name' ''deluxe'' \<or> includes' name' ''special''
         then 3 / 2 else m2)"

text \<open>The argument \<open>rnd\<close> is the value \<^verbatim>\<open>Math.random()\<close> returns, a number in \<open>[0, 1)\<close>.\<close>

definition generateCategoryBasedPrice :: "builtins \<Rightarrow> rat \<Rightarrow> jsval \<Rightarrow> error + rat" where
  "generateCategoryBasedPrice b rnd apiProduct =
     (case mapApiCategory b apiProduct of
        Inl e \<Rightarrow> Inl e
      | Inr category' \<Rightarrow>
          (case jsString b (orElse (getProp apiProduct ''name'') (JStr [])) of
             Inl e \<Rightarrow> Inl e
           | Inr str \<Rightarrow>
               (let name' = toLowerCase str;
                    (min', max') = (case map_of basePrices category' of
                                      Some bounds \<Rightarrow> bounds
                                    | None \<Rightarrow> (10, 25));
                    multiplier = priceMultiplier name';
                    basePrice = rnd * (max' - min') + min'
                in Inr (round2 (basePrice * multiplier)))))"

text \<open>\<^verbatim>\<open>extractPriceEnhanced\<close> reads \<^verbatim>\<open>apiProduct.name\<close> first (for its log line).\<close>

definition extractPriceEnhanced :: "builtins \<Rightarrow> rat \<Rightarrow> jsval \<Rightarrow> error + rat" where
  "extractPriceEnhanced b rnd apiProduct =
     (if nullish apiProduct then Inl nullRead
      else
        case (case getProp apiProduct ''locationPrices'' of
                JArr locationPrices \<Rightarrow> scanLocationPrices locationPrices
              | _ \<Rightarrow> None) of
          Some p \<Rightarrow> Inr p
        | None \<Rightarrow>
            (case positiveNumber (getProp apiProduct ''unitPriceWithVat'') of
               Some n \<Rightarrow> Inr (round2 n)
             | None \<Rightarrow>
                 (case scanPriceFields b apiProduct priceFields of
                    Some p \<Rightarrow> Inr p
                  | None \<Rightarrow> generateCategoryBasedPrice b rnd apiProduct)))"

subsection \<open>Selling-products listing\<close>






section \<open>Order submission\<close>

text \<open>\<^verbatim>\<open>interface OrderResponse\<close>; its \<^verbatim>\<open>data\<close> is an object on every path of the service. The
  fields \<^verbatim>\<open>id\<close>, \<^verbatim>\<open>status\<close> and \<^verbatim>\<open>message\<close> are written \<open>orderId\<close>, \<open>orderStatus\<close> and
  \<open>orderMessage\<close>.\<close>

record orderData =
  orderId :: jsval
  orderNumber :: jsval
  orderStatus :: string
  estimatedTime :: int
  totalAmount :: jsval
  createdAt :: jsval
  queuePosition :: jsval

record orderResponse =
  isSuccess :: bool
  data :: orderData
  orderMessage :: jsval
  timestamp :: string
  isOffline :: "bool option"

text \<open>\<^verbatim>\<open>str.slice(-n)\<close> and \<^verbatim>\<open>str.padStart(n, c)\<close>.\<close>

definition sliceLast :: "nat \<Rightarrow> string \<Rightarrow> string" where
  "sliceLast n str = drop (length str - n) str"

definition padStart :: "nat \<Rightarrow> char \<Rightarrow> string \<Rightarrow> string" where
  "padStart n c str = replicate (n - length str) c @ str"

definition generateOrderNumber :: "int \<Rightarrow> rat \<Rightarrow> string" where
  "generateOrderNumber now rnd =
     (let timestamp' = sliceLast 6 (intToString now);
          random = padStart 3 (CHR ''0'') (intToString \<lfloor>rnd * 1000\<rfloor>)
      in ''HB'' @ timestamp' @ random)"

definition createFallbackOrderResponse :: "builtins \<Rightarrow> int \<Rightarrow> rat \<Rightarrow> orderResponse" where
  "createFallbackOrderResponse b now rnd =
     \<lparr> isSuccess = True,
       data = \<lparr> orderId = JNum (of_int now),
                orderNumber = JStr (generateOrderNumber now rnd),
                orderStatus = ''confirmed'',
                estimatedTime = 15,
                totalAmount = JNum 0,
                createdAt = JStr (toISOString b now),
                queuePosition = JNull \<rparr>,
       orderMessage = JStr ''Order submitted successfully (offline mode)'',
       timestamp = toISOString b now,
       isOffline = Some True \<rparr>"

text \<open>\<^verbatim>\<open>extractOrderData\<close> reads \<^verbatim>\<open>response.payload\<close> without a guard: it throws on \<^verbatim>\<open>null\<close> and
  \<^verbatim>\<open>undefined\<close>.\<close>

definition extractOrderData :: "jsval \<Rightarrow> error + jsval" where
  "extractOrderData response =
     (if nullish response then Inl (TypeError ''Cannot read properties of null or undefined'')
      else if truthy (getProp response ''payload'') then Inr (getProp response ''payload'')
      else if truthy (getProp response ''data'') then Inr (getProp response ''data'')
      else if truthy (getProp response ''order'') then Inr (getProp response ''order'')
      else if truthy (getProp response ''result'') then Inr (getProp response ''result'')
      else if truthy (getProp response ''id'') \<or> truthy (getProp response ''uid'') then Inr response
      else Inr JNull)"

text \<open>\<^verbatim>\<open>processOrderResponse\<close>: the body of the \<^verbatim>\<open>try\<close>, and the \<^verbatim>\<open>catch\<close> that answers any throw
  with the fallback response.\<close>

definition processOrderResponse :: "builtins \<Rightarrow> int \<Rightarrow> rat \<Rightarrow> jsval \<Rightarrow> orderResponse" where
  "processOrderResponse b now rnd response =
     (case extractOrderData response of
        Inl e \<Rightarrow> createFallbackOrderResponse b now rnd
      | Inr orderData \<Rightarrow>
          if \<not> truthy orderData \<and> truthy response then
            \<lparr> isSuccess = True,
              data = \<lparr> orderId = JNum (of_int now),
                       orderNumber = JStr (generateOrderNumber now rnd),
                       orderStatus = ''confirmed'',
                       estimatedTime = 15,
                       totalAmount = JNum 0,
                       createdAt = JStr (toISOString b now),
                       queuePosition = JNull \<rparr>,
              orderMessage = JStr ''Order submitted successfully'',
              timestamp = toISOString b now,
              isOffline = None \<rparr>
          else
            \<lparr> isSuccess = (getProp response ''isSuccess'' \<noteq> JBool False),
              data = \<lparr> orderId = orElse (orElse (optProp orderData ''id'') (optProp orderData ''uid''))
                                   (JNum (of_int now)),
                       orderNumber = orElse (optProp orderData ''orderNumber'')
                                       (JStr (generateOrderNumber now rnd)),
                       orderStatus = ''confirmed'',
                       estimatedTime = 15,
                       totalAmount = orElse (optProp orderData ''totalAmount'') (JNum 0),
                       createdAt = orElse (optProp orderData ''createdAt'') (JStr (toISOString b now)),
                       queuePosition = JNull \<rparr>,
              orderMessage = orElse (getProp response ''message'') (JStr ''Order placed successfully''),
              timestamp = toISOString b now,
              isOffline = None \<rparr>)"

text \<open>
  The request function of \<^verbatim>\<open>createOrder\<close>. The argument \<open>transformToHesburgerFormat\<close> stands
  for the method of that name, which builds the request body and may throw; \<open>httpPost body k\<close>
  is what the \<open>k\<close>-th request settles with.
\<close>

definition orderRequest ::
  "builtins \<Rightarrow> int \<Rightarrow> rat \<Rightarrow> ('o \<Rightarrow> error + 'body) \<Rightarrow> ('body \<Rightarrow> nat \<Rightarrow> error + jsval) \<Rightarrow> 'o \<Rightarrow> nat
     \<Rightarrow> error + orderResponse" where
  "orderRequest b now rnd transformToHesburgerFormat httpPost orderData k =
     (case transformToHesburgerFormat orderData of
        Inl e \<Rightarrow> Inl e
      | Inr hesburgerOrderData \<Rightarrow>
          (case httpPost hesburgerOrderData k of
             Inl e \<Rightarrow> Inl e
           | Inr response \<Rightarrow> Inr (processOrderResponse b now rnd response)))"

text \<open>\<^verbatim>\<open>makeAuthenticatedRequest(requestFn).pipe(catchError(error =>
  of(this.createFallbackOrderResponse())))\<close>.\<close>

definition createOrder ::
  "builtins \<Rightarrow> (nat \<Rightarrow> error + jsval) \<Rightarrow> ('o \<Rightarrow> error + 'body) \<Rightarrow> ('body \<Rightarrow> nat \<Rightarrow> error + jsval)
     \<Rightarrow> int \<Rightarrow> rat \<Rightarrow> 'o \<Rightarrow> service \<Rightarrow> orderResponse \<times> service" where
  "createOrder b post transformToHesburgerFormat httpPost now rnd orderData s =
     (case makeAuthenticatedRequest post now
             (orderRequest b now rnd transformToHesburgerFormat httpPost orderData) s of
        (Inr response, s') \<Rightarrow> (response, s')
      | (Inl e, s') \<Rightarrow> (createFallbackOrderResponse b now rnd, s'))"

text \<open>The shape of a generated order number: \<^verbatim>\<open>HB\<close>, six digits, three digits.\<close>

definition isDigit :: "char \<Rightarrow> bool" where
  "isDigit c = (48 \<le> (of_char c :: nat) \<and> (of_char c :: nat) \<le> 57)"

definition hbOrderNumber :: "jsval \<Rightarrow> bool" where
  "hbOrderNumber v =
     (case v of
        JStr str \<Rightarrow> length str = 11 \<and> take 2 str = ''HB'' \<and> list_all isDigit (drop 2 str)
      | _ \<Rightarrow> False)"

section \<open>Example data\<close>

text \<open>A product with id 5 and price 10, as in the specification's merge scenario.\<close>

definition burger5 :: product where
  "burger5 =
     \<lparr> id' = 5, name = ''Cheeseburger'', description = ''Cheeseburger'', price = 10,
       category = ''burgers'', isAvailable = Some True \<rparr>"

text \<open>Host functions for the examples (the examples do not depend on what they return).\<close>

definition exampleBuiltins :: builtins where
  "exampleBuiltins =
     \<lparr> numberToString = (\<lambda>n. ''0''), parseFloat = (\<lambda>str. None),
       toISOString = (\<lambda>t. ''1970-01-01T00:00:00.000Z'') \<rparr>"

text \<open>A service that holds a credential which expires at time 1000.\<close>

definition validTokenService :: service where
  "validTokenService = newService\<lparr> authToken := Some ''token-0123456789'', tokenExpiryTime := 1000 \<rparr>"

text \<open>A login response that carries a token, one that carries only the word \<^verbatim>\<open>Bearer\<close> and
  blanks (twelve characters), and a failed login request.\<close>

definition loginOk :: "error + jsval" where
  "loginOk = Inr (JObj [(''token'', JStr ''abcdefghijklmnop'')])"

definition loginBlank :: "error + jsval" where
  "loginBlank = Inr (JObj [(''token'', JStr ''Bearer      '')])"

definition loginDown :: "error + jsval" where
  "loginDown = Inl (HttpErrorResponse 500 ''Internal Server Error'')"

text \<open>A request function whose every invocation is answered with status 401.\<close>

definition unauthorized :: "nat \<Rightarrow> error + jsval" where
  "unauthorized k = Inl (HttpErrorResponse 401 ''Unauthorized'')"

text \<open>The payload of the specification's price scenario, and one whose only price is 0.004.\<close>

definition pricedByLocation :: jsval where
  "pricedByLocation =
     JObj [ (''name'', JStr ''Chicken Burger''),
            (''locationPrices'', JArr [JObj [(''unitPriceWithVat'', JNum (12345 / 1000))]]),
            (''price'', JNum 99) ]"

definition tinyPrice :: jsval where
  "tinyPrice = JObj [(''name'', JStr ''Napkin''), (''price'', JNum (4 / 1000))]"

text \<open>Payloads priced by the product-level \<^verbatim>\<open>unitPriceWithVat\<close>, by the second of the price
  fields, and by nothing.\<close>

definition pricedByProduct :: jsval where
  "pricedByProduct =
     JObj [ (''name'', JStr ''Fries''), (''locationPrices'', JArr [JNull, JObj [(''price'', JNum 0)]]),
            (''unitPriceWithVat'', JNum 7), (''price'', JNum 99) ]"

definition pricedByField :: jsval where
  "pricedByField =
     JObj [(''name'', JStr ''Apple Pie''), (''price'', JNum 0), (''unitPrice'', JNum (5 / 2))]"

definition unpriced :: jsval where
  "unpriced = JObj [(''name'', JStr ''Cola'')]"

text \<open>A request function that is answered with status 401 once and with a value afterwards,
  and one that is answered with status 500.\<close>

definition unauthorizedOnce :: "nat \<Rightarrow> error + jsval" where
  "unauthorizedOnce k =
     (if k = 0 then Inl (HttpErrorResponse 401 ''Unauthorized'') else Inr (JStr ''done''))"

definition serverError :: "nat \<Rightarrow> error + jsval" where
  "serverError k = Inl (HttpErrorResponse 500 ''Internal Server Error'')"







text \<open>Payloads whose category comes from \<^verbatim>\<open>categoryName\<close>, from \<^verbatim>\<open>alias\<close>, and from \<^verbatim>\<open>category\<close>
  in the presence of \<^verbatim>\<open>categoryName\<close>; and one whose \<^verbatim>\<open>category\<close> cannot be converted.\<close>

definition hotWings :: jsval where
  "hotWings = JObj [(''name'', JNull), (''categoryName'', JStr ''Hot Wings'')]"

definition aliasOnly :: jsval where
  "aliasOnly = JObj [(''name'', JStr ''Menu 7''), (''alias'', JStr ''COLA-033'')]"

definition categoryFirst :: jsval where
  "categoryFirst =
     JObj [ (''name'', JStr ''Sundae''), (''category'', JStr ''Desserts''),
            (''categoryName'', JStr ''Chicken'') ]"

definition unconvertible :: jsval where
  "unconvertible =
     JObj [ (''name'', JStr ''Cheeseburger''), (''price'', JNum 5),
            (''category'', JObj [(''toString'', JStr ''burgers'')]) ]"

text \<open>Host functions whose \<^verbatim>\<open>parseFloat\<close> reads the text \<^verbatim>\<open>2.50\<close>, and a payload priced by a
  string in the third of the price fields.\<close>

definition parsingBuiltins :: builtins where
  "parsingBuiltins =
     exampleBuiltins\<lparr> parseFloat := (\<lambda>str. if str = ''2.50'' then Some (5 / 2) else None) \<rparr>"

definition pricedByString :: jsval where
  "pricedByString = JObj [(''name'', JStr ''Tea''), (''price'', JStr ''n/a''), (''cost'', JStr ''2.50'')]"

text \<open>An order request that cannot reach the server.\<close>

definition unreachable :: "unit \<Rightarrow> nat \<Rightarrow> error + jsval" where
  "unreachable body k = Inl (HttpErrorResponse 0 ''Unknown Error'')"

section \<open>Properties of the cart store\<close>

lemma updateFirst_length: "length (updateFirst P f xs) = length xs"
  by (induction xs) auto

lemma updateFirst_find:
  "find P xs = Some x \<Longrightarrow>
     \<exists>i<length xs. xs ! i = x \<and> P x \<and> (\<forall>j<i. \<not> P (xs ! j)) \<and> updateFirst P f xs = xs[i := f x]"
proof (induction xs)
  case Nil
  then show ?case by simp
next
  case (Cons a xs)
  show ?case
  proof (cases "P a")
    case True
    with Cons.prems have "a = x" by simp
    with True show ?thesis by (intro exI[of _ 0]) simp
  next
    case False
    with Cons.prems have "find P xs = Some x" by simp
    from Cons.IH[OF this] obtain i where i: "i < length xs" "xs ! i = x" "P x"
      "\<forall>j<i. \<not> P (xs ! j)" "updateFirst P f xs = xs[i := f x]" by blast
    have "\<forall>j<Suc i. \<not> P ((a # xs) ! j)"
      using False i(4) by (auto simp: less_Suc_eq_0_disj)
    with i False show ?thesis by (intro exI[of _ "Suc i"]) simp
  qed
qed

lemma find_id_Some:
  "k \<in> id' ` set xs \<Longrightarrow> \<exists>x. find (\<lambda>item. id' item = k) xs = Some x"
  by (induction xs) auto

lemma cart_simps:
  "cartSubject (saveCartToStorage s) = cartSubject s"
  "cartSubject (cartNext c s) = c"
  by (simp_all add: saveCartToStorage_def setItem_def cartNext_def)

text \<open>
  Claim C7. Adding a product whose id already has a cart line changes the first line with
  that id, adding the quantity to it, and appends nothing: the cart keeps its length and
  its sequence of ids. From the empty cart, two additions of the same product give one
  line that carries the sum of the two quantities, and the cart total is the price times
  that sum; with id 5, price 10 and quantities 2 and 3 this is one line of quantity 5 and a
  total of 50.
\<close>

theorem addToCart_merges:
  "(id' p \<in> id' ` set (cartSubject s) \<longrightarrow>
      (\<exists>i<length (cartSubject s).
          id' (cartSubject s ! i) = id' p \<and> (\<forall>j<i. id' (cartSubject s ! j) \<noteq> id' p) \<and>
          cartSubject (addToCart now p q s)
            = (cartSubject s)[i := (cartSubject s ! i)\<lparr> quantity := quantity (cartSubject s ! i) + q \<rparr>]) \<and>
      length (cartSubject (addToCart now p q s)) = length (cartSubject s) \<and>
      map id' (cartSubject (addToCart now p q s)) = map id' (cartSubject s)) \<and>
   cartSubject (addToCart t2 p q2 (addToCart t1 p q1 newService)) = [newCartItem t1 p (q1 + q2)] \<and>
   getCartTotal (addToCart t2 p q2 (addToCart t1 p q1 newService)) = price p * of_int (q1 + q2)"
proof (intro conjI impI)
  assume a: "id' p \<in> id' ` set (cartSubject s)"
  then obtain x where x: "find (\<lambda>item. id' item = id' p) (cartSubject s) = Some x"
    using find_id_Some by blast
  have c: "cartSubject (addToCart now p q s)
      = updateFirst (\<lambda>item. id' item = id' p) (\<lambda>item. item\<lparr> quantity := quantity item + q \<rparr>) (cartSubject s)"
    using x by (simp add: addToCart_def cart_simps Let_def)
  from updateFirst_find[OF x, of "\<lambda>item. item\<lparr> quantity := quantity item + q \<rparr>"]
  obtain i where i: "i < length (cartSubject s)" "cartSubject s ! i = x" "id' x = id' p"
    "\<forall>j<i. id' (cartSubject s ! j) \<noteq> id' p"
    "updateFirst (\<lambda>item. id' item = id' p) (\<lambda>item. item\<lparr> quantity := quantity item + q \<rparr>) (cartSubject s)
       = (cartSubject s)[i := x\<lparr> quantity := quantity x + q \<rparr>]" by blast
  show "\<exists>i<length (cartSubject s).
          id' (cartSubject s ! i) = id' p \<and> (\<forall>j<i. id' (cartSubject s ! j) \<noteq> id' p) \<and>
          cartSubject (addToCart now p q s)
            = (cartSubject s)[i := (cartSubject s ! i)\<lparr> quantity := quantity (cartSubject s ! i) + q \<rparr>]"
    using i c by (intro exI[of _ i]) simp
  show "length (cartSubject (addToCart now p q s)) = length (cartSubject s)"
    by (simp add: c updateFirst_length)
  show "map id' (cartSubject (addToCart now p q s)) = map id' (cartSubject s)"
    using i by (simp add: c map_update) (metis list_update_id map_update)
next
  show "cartSubject (addToCart t2 p q2 (addToCart t1 p q1 newService)) = [newCartItem t1 p (q1 + q2)]"
    by (simp add: addToCart_def cart_simps Let_def newService_def newCartItem_def)
  then show "getCartTotal (addToCart t2 p q2 (addToCart t1 p q1 newService)) = price p * of_int (q1 + q2)"
    by (simp add: getCartTotal_def newCartItem_def)
qed

theorem addToCart_merges_witness:
  "id' burger5 \<in> id' ` set (cartSubject (addToCart 1000 burger5 2 newService)) \<and>
   map (\<lambda>item. (id' item, quantity item))
     (cartSubject (addToCart 2000 burger5 3 (addToCart 1000 burger5 2 newService))) = [(5, 5)] \<and>
   length (cartSubject (addToCart 2000 burger5 3 (addToCart 1000 burger5 2 newService))) = 1 \<and>
   getCartTotal (addToCart 2000 burger5 3 (addToCart 1000 burger5 2 newService)) = 50"
  using addToCart_merges[of burger5 "addToCart 1000 burger5 2 newService" 2000 3 2000 3 1000 2]
  by (simp add: addToCart_def cart_simps Let_def newService_def newCartItem_def burger5_def)

text \<open>
  Claim C9. When no cart line has the given product id, \<^verbatim>\<open>updateCartQuantity\<close> returns the
  service state as it was: the cart is the same, nothing is published on the cart subject
  and nothing is written to storage (the list of effects and the storage are unchanged).
\<close>

theorem updateCartQuantity_unknown_id:
  "productId \<notin> id' ` set (cartSubject s) \<Longrightarrow>
     updateCartQuantity productId q s = s \<and>
     cartSubject (updateCartQuantity productId q s) = cartSubject s \<and>
     effects (updateCartQuantity productId q s) = effects s \<and>
     localStorage (updateCartQuantity productId q s) = localStorage s"
proof -
  assume "productId \<notin> id' ` set (cartSubject s)"
  then have "find (\<lambda>item. id' item = productId) (cartSubject s) = None"
    by (auto simp: find_None_iff)
  then show ?thesis by (simp add: updateCartQuantity_def)
qed

theorem updateCartQuantity_unknown_id_witness:
  "7 \<notin> id' ` set (cartSubject (addToCart 1000 burger5 2 newService)) \<and>
   updateCartQuantity 7 4 (addToCart 1000 burger5 2 newService) = addToCart 1000 burger5 2 newService \<and>
   effects (updateCartQuantity 7 4 (addToCart 1000 burger5 2 newService))
     = [CartPublished [newCartItem 1000 burger5 2], StorageSet ''hesburger_cart'']"
proof -
  have h: "7 \<notin> id' ` set (cartSubject (addToCart 1000 burger5 2 newService))"
    by (simp add: addToCart_def cart_simps Let_def newService_def newCartItem_def burger5_def)
  have e: "effects (addToCart 1000 burger5 2 newService)
      = [CartPublished [newCartItem 1000 burger5 2], StorageSet ''hesburger_cart'']"
    by (simp add: addToCart_def saveCartToStorage_def setItem_def cartNext_def Let_def newService_def)
  from updateCartQuantity_unknown_id[OF h, of 4] h e show ?thesis by simp
qed

section \<open>Properties of the token lifecycle\<close>

text \<open>
  Claim C6, as amended. The two predicates first test \<^verbatim>\<open>!this.authToken\<close>. When a non-empty
  token is stored, the validity predicate is exactly \<open>now < expiry\<close> and the near-expiry
  predicate is exactly \<open>now + 120000 \<ge> expiry\<close>; when no token is stored, or the stored token
  is the empty string, both return false whatever the expiry is.
\<close>

theorem token_predicates:
  "isTokenStillValid now s = ((\<exists>t. authToken s = Some t \<and> t \<noteq> []) \<and> now < tokenExpiryTime s) \<and>
   isTokenNearExpiry now s = ((\<exists>t. authToken s = Some t \<and> t \<noteq> []) \<and> now + 120000 \<ge> tokenExpiryTime s)"
  by (auto simp: isTokenStillValid_def isTokenNearExpiry_def hasToken_def Let_def split: option.splits)

text \<open>
  The claim as stated fails in two states. In the initial state no token is stored and the
  expiry is 0: \<open>now + 120000 \<ge> expiry\<close> holds at time 0, and the near-expiry predicate returns
  false. After a login whose response carries the token \<^verbatim>\<open>"Bearer      "\<close> (twelve characters,
  so it is accepted) the stored token is the empty string and the expiry lies 23 hours ahead:
  \<open>now < expiry\<close> holds at time 1, and the validity predicate returns false.
\<close>

theorem token_predicates_counterexample:
  "isTokenNearExpiry 0 newService = False \<and> (0::int) + 120000 \<ge> tokenExpiryTime newService \<and>
   authToken (snd (loginSettled 0 loginBlank newService)) = Some [] \<and>
   isTokenStillValid 1 (snd (loginSettled 0 loginBlank newService)) = False \<and>
   1 < tokenExpiryTime (snd (loginSettled 0 loginBlank newService))"
  by code_simp

section \<open>Properties of the authenticated wrapper\<close>

lemma httpTrace_simps:
  "httpTrace (setItem k v s) = httpTrace s"
  "httpTrace (removeItem k s) = httpTrace s"
  "httpTrace (loginPosted s) = httpTrace s @ [LoginPosted]"
  "httpTrace (s\<lparr> isRefreshingToken := x \<rparr>) = httpTrace s"
  "httpTrace (s\<lparr> refreshTokenSubject := y \<rparr>) = httpTrace s"
  "httpTrace (s\<lparr> authToken := a \<rparr>) = httpTrace s"
  "httpTrace (s\<lparr> tokenExpiryTime := t \<rparr>) = httpTrace s"
  by (simp_all add: httpTrace_def setItem_def removeItem_def loginPosted_def)

lemma httpTrace_clearToken: "httpTrace (clearToken s) = httpTrace s"
  by (simp add: clearToken_def httpTrace_simps)

lemma httpTrace_setAuthToken: "httpTrace (setAuthToken now token s) = httpTrace s"
  by (simp add: setAuthToken_def saveTokenToStorage_def Let_def httpTrace_simps)

lemma httpTrace_loginSettled: "httpTrace (snd (loginSettled now outcome s)) = httpTrace s"
  by (simp add: loginSettled_def loginFailed_def httpTrace_simps httpTrace_setAuthToken
      split: sum.splits option.splits)

lemma httpTrace_login: "httpTrace (snd (login post now s)) = httpTrace s @ [LoginPosted]"
  by (simp add: login_def httpTrace_loginSettled httpTrace_simps)

lemma httpTrace_invoke: "httpTrace (snd (invoke requestFn s)) = httpTrace s @ [RequestInvoked]"
  by (simp add: invoke_def httpTrace_def)

lemma count_simps:
  "countEffect LoginPosted (clearToken s) = countEffect LoginPosted s"
  "countEffect LoginPosted (s\<lparr> isRefreshingToken := x \<rparr>) = countEffect LoginPosted s"
  "countEffect RequestInvoked (clearToken s) = countEffect RequestInvoked s"
  "countEffect RequestInvoked (s\<lparr> isRefreshingToken := x \<rparr>) = countEffect RequestInvoked s"
  "countEffect LoginPosted (snd (invoke requestFn s)) = countEffect LoginPosted s"
  "countEffect RequestInvoked (snd (invoke requestFn s)) = countEffect RequestInvoked s + 1"
  "isRefreshingToken (snd (invoke requestFn s)) = isRefreshingToken s"
  "fst (invoke requestFn s) = requestFn (countEffect RequestInvoked s)"
  by (simp_all add: countEffect_def clearToken_def removeItem_def invoke_def)

lemma count_requests_loginSettled:
  "countEffect RequestInvoked (snd (loginSettled now outcome s)) = countEffect RequestInvoked s"
  by (simp add: loginSettled_def loginFailed_def countEffect_def setAuthToken_def saveTokenToStorage_def
      setItem_def Let_def split: sum.splits option.splits)

lemma count_requests_login:
  "countEffect RequestInvoked (snd (login post now s)) = countEffect RequestInvoked s"
  by (simp add: login_def count_requests_loginSettled) (simp add: countEffect_def loginPosted_def)

lemma login_result:
  "fst (login post now s) =
     (if loginSucceeds (post (countEffect LoginPosted s))
      then post (countEffect LoginPosted s)
      else Inl (handleError (case post (countEffect LoginPosted s) of
                               Inl e' \<Rightarrow> e'
                             | Inr r \<Rightarrow> Error ''No authentication token received'')))"
  by (auto simp: login_def loginSettled_def loginFailed_def loginSucceeds_def
      split: sum.splits option.splits)

lemma loginSucceeds_Inr: "loginSucceeds outcome \<Longrightarrow> \<exists>r. outcome = Inr r"
  by (auto simp: loginSucceeds_def split: sum.splits)

lemma onRequestError_401:
  assumes "status e = Some 401" "\<not> isRefreshingToken s"
  shows "httpTrace (snd (onRequestError post now requestFn e s)) =
           httpTrace s @ (if loginSucceeds (post (countEffect LoginPosted s))
                          then [LoginPosted, RequestInvoked] else [LoginPosted])"
    and "fst (onRequestError post now requestFn e s) =
           (if loginSucceeds (post (countEffect LoginPosted s))
            then requestFn (countEffect RequestInvoked s)
            else Inl (handleError (case post (countEffect LoginPosted s) of
                               Inl e' \<Rightarrow> e'
                             | Inr r \<Rightarrow> Error ''No authentication token received'')))"
proof -
  let ?s1 = "clearToken (s\<lparr> isRefreshingToken := True \<rparr>)"
  have r: "refreshToken s = (RefreshLogin, ?s1)" using assms by (simp add: refreshToken_def)
  obtain res s2 where l: "login post now ?s1 = (res, s2)" by (cases "login post now ?s1")
  have res: "res = (if loginSucceeds (post (countEffect LoginPosted s))
      then post (countEffect LoginPosted s)
      else Inl (handleError (case post (countEffect LoginPosted s) of
                               Inl e' \<Rightarrow> e'
                             | Inr r \<Rightarrow> Error ''No authentication token received'')))"
    using login_result[of post now ?s1] l by (simp add: count_simps)
  have tr: "httpTrace s2 = httpTrace s @ [LoginPosted]"
    using httpTrace_login[of post now ?s1] l by (simp add: httpTrace_clearToken httpTrace_simps)
  have cnt: "countEffect RequestInvoked s2 = countEffect RequestInvoked s"
    using count_requests_login[of post now ?s1] l by (simp add: count_simps)
  show "httpTrace (snd (onRequestError post now requestFn e s)) =
           httpTrace s @ (if loginSucceeds (post (countEffect LoginPosted s))
                          then [LoginPosted, RequestInvoked] else [LoginPosted])"
  proof (cases "loginSucceeds (post (countEffect LoginPosted s))")
    case True
    then obtain v where "res = Inr v" using res loginSucceeds_Inr by fastforce
    then show ?thesis
      using assms r l tr True httpTrace_invoke[of requestFn s2]
      by (simp add: onRequestError_def subscribeRefresh_def)
  next
    case False
    then show ?thesis
      using assms r l tr res by (simp add: onRequestError_def subscribeRefresh_def)
  qed
  show "fst (onRequestError post now requestFn e s) =
           (if loginSucceeds (post (countEffect LoginPosted s))
            then requestFn (countEffect RequestInvoked s)
            else Inl (handleError (case post (countEffect LoginPosted s) of
                               Inl e' \<Rightarrow> e'
                             | Inr r \<Rightarrow> Error ''No authentication token received'')))"
  proof (cases "loginSucceeds (post (countEffect LoginPosted s))")
    case True
    then obtain v where "res = Inr v" using res loginSucceeds_Inr by fastforce
    then show ?thesis
      using assms r l cnt True
      by (simp add: onRequestError_def subscribeRefresh_def count_simps)
  next
    case False
    then show ?thesis
      using assms r l res by (simp add: onRequestError_def subscribeRefresh_def)
  qed
qed

lemma onRequestError_other:
  "\<not> (status e = Some 401 \<and> \<not> isRefreshingToken s) \<Longrightarrow>
     onRequestError post now requestFn e s = (Inl e, s)"
  by (auto simp: onRequestError_def)

text \<open>
  Claim C3, as amended. Let authentication succeed and let the request function, invoked for
  the first time, fail with error \<open>e\<close>. If \<open>e\<close> has status 401 and no refresh is in flight,
  the wrapper posts exactly one login request; when that login succeeds it invokes the
  request function exactly once more and delivers whatever that invocation settles with, an
  error included, with no further retry; when that login fails it delivers the login's error
  and does not invoke the request function again. In every other case the wrapper delivers
  \<open>e\<close> itself, posts no login and does not retry.
\<close>

theorem makeAuthenticatedRequest_retry:
  assumes "ensureAuthenticated now s = (src, s0)"
      and "subscribeAuth post now src s0 = (Inr (), s1)"
      and "requestFn (countEffect RequestInvoked s1) = Inl e"
  shows
    "(status e = Some 401 \<and> \<not> isRefreshingToken s1 \<and> loginSucceeds (post (countEffect LoginPosted s1)) \<longrightarrow>
        fst (makeAuthenticatedRequest post now requestFn s) = requestFn (countEffect RequestInvoked s1 + 1) \<and>
        httpTrace (snd (makeAuthenticatedRequest post now requestFn s))
          = httpTrace s1 @ [RequestInvoked, LoginPosted, RequestInvoked]) \<and>
     (status e = Some 401 \<and> \<not> isRefreshingToken s1 \<and> \<not> loginSucceeds (post (countEffect LoginPosted s1)) \<longrightarrow>
        fst (makeAuthenticatedRequest post now requestFn s)
          = Inl (handleError (case post (countEffect LoginPosted s1) of
                                Inl e' \<Rightarrow> e'
                              | Inr r \<Rightarrow> Error ''No authentication token received'')) \<and>
        httpTrace (snd (makeAuthenticatedRequest post now requestFn s))
          = httpTrace s1 @ [RequestInvoked, LoginPosted]) \<and>
     (\<not> (status e = Some 401 \<and> \<not> isRefreshingToken s1) \<longrightarrow>
        fst (makeAuthenticatedRequest post now requestFn s) = Inl e \<and>
        httpTrace (snd (makeAuthenticatedRequest post now requestFn s)) = httpTrace s1 @ [RequestInvoked])"
proof -
  let ?s2 = "snd (invoke requestFn s1)"
  have m: "makeAuthenticatedRequest post now requestFn s = onRequestError post now requestFn e ?s2"
    using assms by (simp add: makeAuthenticatedRequest_def subscribeRequest_def invoke_def)
  have s2: "httpTrace ?s2 = httpTrace s1 @ [RequestInvoked]"
    "isRefreshingToken ?s2 = isRefreshingToken s1"
    "countEffect LoginPosted ?s2 = countEffect LoginPosted s1"
    "countEffect RequestInvoked ?s2 = countEffect RequestInvoked s1 + 1"
    by (simp_all add: httpTrace_invoke count_simps)
  show ?thesis
  proof (cases "status e = Some 401 \<and> \<not> isRefreshingToken s1")
    case True
    then have a: "status e = Some 401" "\<not> isRefreshingToken ?s2" by (simp_all add: s2)
    show ?thesis
      using True onRequestError_401[OF a, of post now requestFn] by (simp add: m s2)
  next
    case False
    then have "\<not> (status e = Some 401 \<and> \<not> isRefreshingToken ?s2)" by (simp add: s2)
    from onRequestError_other[OF this, of post now requestFn] False show ?thesis
      by (simp add: m s2)
  qed
qed

theorem makeAuthenticatedRequest_retry_witness:
  "fst (makeAuthenticatedRequest (\<lambda>k. loginOk) 0 unauthorizedOnce validTokenService) = Inr (JStr ''done'') \<and>
   httpTrace (snd (makeAuthenticatedRequest (\<lambda>k. loginOk) 0 unauthorizedOnce validTokenService))
     = [RequestInvoked, LoginPosted, RequestInvoked] \<and>
   fst (makeAuthenticatedRequest (\<lambda>k. loginDown) 0 unauthorizedOnce validTokenService)
     = Inl (Error ''Server error - try again later'') \<and>
   httpTrace (snd (makeAuthenticatedRequest (\<lambda>k. loginDown) 0 unauthorizedOnce validTokenService))
     = [RequestInvoked, LoginPosted] \<and>
   fst (makeAuthenticatedRequest (\<lambda>k. loginOk) 0 serverError validTokenService)
     = Inl (HttpErrorResponse 500 ''Internal Server Error'') \<and>
   httpTrace (snd (makeAuthenticatedRequest (\<lambda>k. loginOk) 0 serverError validTokenService))
     = [RequestInvoked]"
proof -
  have e: "ensureAuthenticated 0 validTokenService = (OfTrue, validTokenService)"
    by code_simp
  have a: "subscribeAuth post 0 OfTrue validTokenService = (Inr (), validTokenService)" for post
    by (simp add: subscribeAuth_def)
  have k: "countEffect RequestInvoked validTokenService = 0" "countEffect LoginPosted validTokenService = 0"
    "httpTrace validTokenService = []" "\<not> isRefreshingToken validTokenService"
    by code_simp+
  have f1: "unauthorizedOnce (countEffect RequestInvoked validTokenService) = Inl (HttpErrorResponse 401 ''Unauthorized'')"
    by (simp add: k unauthorizedOnce_def)
  have f2: "serverError (countEffect RequestInvoked validTokenService) = Inl (HttpErrorResponse 500 ''Internal Server Error'')"
    by (simp add: serverError_def)
  have ok: "loginSucceeds loginOk" by code_simp
  have down: "\<not> loginSucceeds loginDown" by code_simp
  have he: "handleError (HttpErrorResponse 500 ''Internal Server Error'') = Error ''Server error - try again later''"
    by code_simp
  have u1: "unauthorizedOnce (0 + 1) = Inr (JStr ''done'')" by (simp add: unauthorizedOnce_def)
  from makeAuthenticatedRequest_retry[where requestFn=unauthorizedOnce and post="\<lambda>k. loginOk", OF e a f1] ok k u1
  have w1: "fst (makeAuthenticatedRequest (\<lambda>k. loginOk) 0 unauthorizedOnce validTokenService) = Inr (JStr ''done'') \<and>
   httpTrace (snd (makeAuthenticatedRequest (\<lambda>k. loginOk) 0 unauthorizedOnce validTokenService))
     = [RequestInvoked, LoginPosted, RequestInvoked]"
    by simp
  from makeAuthenticatedRequest_retry[where requestFn=unauthorizedOnce and post="\<lambda>k. loginDown", OF e a f1] down k he
  have w2: "fst (makeAuthenticatedRequest (\<lambda>k. loginDown) 0 unauthorizedOnce validTokenService)
     = Inl (Error ''Server error - try again later'') \<and>
   httpTrace (snd (makeAuthenticatedRequest (\<lambda>k. loginDown) 0 unauthorizedOnce validTokenService))
     = [RequestInvoked, LoginPosted]"
    by (simp add: loginDown_def)
  from makeAuthenticatedRequest_retry[where requestFn=serverError and post="\<lambda>k. loginOk", OF e a f2] k
  have w3: "fst (makeAuthenticatedRequest (\<lambda>k. loginOk) 0 serverError validTokenService)
     = Inl (HttpErrorResponse 500 ''Internal Server Error'') \<and>
   httpTrace (snd (makeAuthenticatedRequest (\<lambda>k. loginOk) 0 serverError validTokenService))
     = [RequestInvoked]"
    by simp
  from w1 w2 w3 show ?thesis by blast
qed

text \<open>
  The claim as stated promises a retry after every 401 that arrives while no refresh is in
  flight. With a valid credential, a request answered with 401 and a login answered with 500,
  the request function is invoked once, a login is posted, and the wrapper fails with the
  login's error: there is no retry, and the error delivered is not the 401.
\<close>

theorem makeAuthenticatedRequest_retry_counterexample:
  "isTokenStillValid 0 validTokenService \<and> \<not> isRefreshingToken validTokenService \<and>
   status (HttpErrorResponse 401 ''Unauthorized'') = Some 401 \<and>
   unauthorized 0 = Inl (HttpErrorResponse 401 ''Unauthorized'') \<and>
   fst (makeAuthenticatedRequest (\<lambda>k. loginDown) 0 unauthorized validTokenService)
      = Inl (Error ''Server error - try again later'') \<and>
   httpTrace (snd (makeAuthenticatedRequest (\<lambda>k. loginDown) 0 unauthorized validTokenService))
      = [RequestInvoked, LoginPosted]"
  by code_simp

text \<open>A value the wrapper delivers is a value that some invocation of the request function
  settled with.\<close>

lemma onRequestError_source:
  "fst (onRequestError post now requestFn e s) = Inr v \<Longrightarrow> \<exists>k. requestFn k = Inr v"
  by (auto simp: onRequestError_def refreshToken_def subscribeRefresh_def invoke_def
      split: if_splits prod.splits sum.splits refreshSource.splits)

lemma subscribeRequest_source:
  "fst (subscribeRequest post now requestFn src s) = Inr v \<Longrightarrow> \<exists>k. requestFn k = Inr v"
  unfolding subscribeRequest_def
  by (auto simp: invoke_def split: prod.splits sum.splits dest: onRequestError_source
      dest!: arg_cong[where f=fst])

lemma makeAuthenticatedRequest_source:
  "fst (makeAuthenticatedRequest post now requestFn s) = Inr v \<Longrightarrow> \<exists>k. requestFn k = Inr v"
  unfolding makeAuthenticatedRequest_def
  by (auto split: prod.splits dest: subscribeRequest_source)

text \<open>
  Callers that arrive while no credential is valid. The first one begins the refresh and
  posts the login request; every later one, for as long as the login is in flight, finds
  the flag set and the credential discarded and fails at once, whatever the login will
  settle with. So one login request is posted for any number of callers.
\<close>

lemma waiting_caller_fails:
  assumes "\<not> isTokenStillValid now s" and "isRefreshingToken s"
  shows "callerArrives now s = (Some (Inl (Error ''Token refresh failed'')), s)"
  using assms by (simp add: callerArrives_def ensureAuthenticated_def subjectPipe_def)

lemma waiting_callers_fail:
  assumes "\<not> isTokenStillValid now s" and "isRefreshingToken s"
  shows "callersArrive now n s = (replicate n (Some (Inl (Error ''Token refresh failed''))), s)"
  using assms by (induction n) (simp_all add: waiting_caller_fails)

lemma first_caller_begins_login:
  assumes "\<not> isTokenStillValid now s" and "\<not> isRefreshingToken s"
  shows "callerArrives now s = (None, loginPosted (clearToken (s\<lparr> isRefreshingToken := True \<rparr>)))"
  using assms by (simp add: callerArrives_def ensureAuthenticated_def refreshToken_def)

lemma after_begin:
  "\<not> isTokenStillValid now (loginPosted (clearToken (s\<lparr> isRefreshingToken := True \<rparr>)))"
  "isRefreshingToken (loginPosted (clearToken (s\<lparr> isRefreshingToken := True \<rparr>)))"
  by (simp_all add: isTokenStillValid_def hasToken_def loginPosted_def clearToken_def removeItem_def)

lemma callers_one_login:
  assumes "\<not> isTokenStillValid now s" and "\<not> isRefreshingToken s"
  shows "callersArrive now (Suc n) s
           = (None # replicate n (Some (Inl (Error ''Token refresh failed''))),
              loginPosted (clearToken (s\<lparr> isRefreshingToken := True \<rparr>)))"
proof -
  let ?s1 = "loginPosted (clearToken (s\<lparr> isRefreshingToken := True \<rparr>))"
  have "callersArrive now n ?s1 = (replicate n (Some (Inl (Error ''Token refresh failed''))), ?s1)"
    by (rule waiting_callers_fail) (rule after_begin)+
  with first_caller_begins_login[OF assms] show ?thesis by simp
qed

text \<open>
  Claim C2, evaluated. On a fresh service two callers arrive in the same turn at time 0 and
  the login succeeds at time 5. One login request is posted. The first caller is notified of
  success when the login settles. The second caller finds the refresh in flight and
  subscribes to \<^verbatim>\<open>refreshTokenSubject\<close>, which delivers its current value at once; the credential
  was discarded when the refresh began, so the caller fails with \<^verbatim>\<open>Token refresh failed\<close> before
  the login has settled, although the login then succeeds and leaves a valid credential.
\<close>

theorem concurrent_callers_second_fails:
  "fst (concurrentCallers 0 2 5 loginOk newService) = [Inr (), Inl (Error ''Token refresh failed'')] \<and>
   httpTrace (snd (concurrentCallers 0 2 5 loginOk newService)) = [LoginPosted] \<and>
   isTokenStillValid 5 (snd (concurrentCallers 0 2 5 loginOk newService))"
  by code_simp

section \<open>Properties of the response normalizer\<close>

lemma jsString_primitive:
  "\<not> isArray v \<Longrightarrow> \<not> isObject v \<Longrightarrow> \<exists>str. jsString b v = Inr str"
  by (cases v) simp_all

lemma orElse_primitive:
  "\<not> isArray a \<and> \<not> isObject a \<Longrightarrow> \<not> isArray d \<and> \<not> isObject d
     \<Longrightarrow> \<not> isArray (orElse a d) \<and> \<not> isObject (orElse a d)"
  by (simp add: orElse_def)

lemma searchText_value:
  "\<not> nullish p \<Longrightarrow> jsString b (orElse (getProp p ''name'') (JStr [])) = Inr n \<Longrightarrow>
   jsString b (orElse (orElse (getProp p ''category'') (getProp p ''categoryName'')) (JStr [])) = Inr cat \<Longrightarrow>
   jsString b (orElse (getProp p ''alias'') (JStr [])) = Inr a \<Longrightarrow>
   searchText b p = Inr (toLowerCase n @ '' '' @ toLowerCase cat @ '' '' @ toLowerCase a)"
  by (simp add: searchText_def)

lemma searchText_strings:
  "searchText b (JObj [(''name'', JStr n), (''category'', JStr cat), (''categoryName'', JStr cn),
                        (''alias'', JStr a)])
     = Inr (toLowerCase n @ '' '' @ toLowerCase (if cat = [] then cn else cat) @ '' '' @ toLowerCase a)"
  by (simp add: searchText_def orElse_def)

lemma searchText_primitive:
  assumes "\<not> nullish p"
    and "\<forall>k \<in> set [''name'', ''category'', ''categoryName'', ''alias''].
           \<not> isArray (getProp p k) \<and> \<not> isObject (getProp p k)"
  shows "\<exists>t. searchText b p = Inr t"
proof -
  have s: "\<not> isArray (JStr []) \<and> \<not> isObject (JStr [])" by simp
  obtain n where n: "jsString b (orElse (getProp p ''name'') (JStr [])) = Inr n"
    using jsString_primitive orElse_primitive[OF _ s, of "getProp p ''name''"] assms(2) by auto
  have "\<not> isArray (orElse (getProp p ''category'') (getProp p ''categoryName''))
      \<and> \<not> isObject (orElse (getProp p ''category'') (getProp p ''categoryName''))"
    using assms(2) by (intro orElse_primitive) auto
  from orElse_primitive[OF this s]
  obtain c where c: "jsString b (orElse (orElse (getProp p ''category'') (getProp p ''categoryName'')) (JStr [])) = Inr c"
    using jsString_primitive by blast
  obtain a where a: "jsString b (orElse (getProp p ''alias'') (JStr [])) = Inr a"
    using jsString_primitive orElse_primitive[OF _ s, of "getProp p ''alias''"] assms(2) by auto
  from searchText_value[OF assms(1) n c a] show ?thesis by blast
qed

lemma mapApiCategory_in_set:
  "mapApiCategory b p = Inr c \<Longrightarrow>
     c \<in> {''burgers'', ''chicken'', ''sides'', ''drinks'', ''desserts'', ''other''}"
  by (auto simp: mapApiCategory_def split: sum.splits if_splits)

lemma mapApiCategory_rule:
  "searchText b p = Inr t \<Longrightarrow>
   mapApiCategory b p =
     Inr (if \<exists>k \<in> set [''burger'', ''big mac'', ''whopper'']. includes' t k then ''burgers''
          else if \<exists>k \<in> set [''chicken'', ''wing'', ''nugget'']. includes' t k then ''chicken''
          else if \<exists>k \<in> set [''fries'', ''ring'', ''onion'', ''potato'']. includes' t k then ''sides''
          else if \<exists>k \<in> set [''cola'', ''drink'', ''juice'', ''coffee'', ''tea'']. includes' t k then ''drinks''
          else if \<exists>k \<in> set [''ice cream'', ''dessert'', ''cake'', ''pie'']. includes' t k then ''desserts''
          else ''other'')"
  by (simp add: mapApiCategory_def)

text \<open>
  Claim C5, as amended. Whenever the category resolution returns, the category is one of the
  six tags, and it returns for every payload that is neither \<^verbatim>\<open>null\<close> nor \<^verbatim>\<open>undefined\<close> and whose
  \<^verbatim>\<open>name\<close>, \<^verbatim>\<open>category\<close>, \<^verbatim>\<open>categoryName\<close> and \<^verbatim>\<open>alias\<close> are neither arrays nor objects. The search
  text is made of the texts of \<^verbatim>\<open>name || ''\<close>, of \<^verbatim>\<open>category || categoryName || ''\<close> and of
  \<^verbatim>\<open>alias || ''\<close>, each in lower case, in this order and joined by single blanks; for a payload
  with four string fields that is the name, the category (the category name when the category
  is empty) and the alias. When one of the three conversions throws, the resolution throws
  the same error. The keyword sets are tried on the search text in the order burgers,
  chicken, sides, drinks, desserts: a set decides the category when one of its keywords
  occurs in the text and no keyword of an earlier set does, and the category is \<^verbatim>\<open>other\<close> when
  no keyword occurs.
\<close>

theorem mapApiCategory_closed:
  "(mapApiCategory b p = Inr c \<longrightarrow>
      c \<in> {''burgers'', ''chicken'', ''sides'', ''drinks'', ''desserts'', ''other''}) \<and>
   (\<not> nullish p \<and>
    (\<forall>k \<in> set [''name'', ''category'', ''categoryName'', ''alias''].
        \<not> isArray (getProp p k) \<and> \<not> isObject (getProp p k))
      \<longrightarrow> (\<exists>c'. mapApiCategory b p = Inr c')) \<and>
   (\<not> nullish p \<and> jsString b (orElse (getProp p ''name'') (JStr [])) = Inr n \<and>
    jsString b (orElse (orElse (getProp p ''category'') (getProp p ''categoryName'')) (JStr [])) = Inr cat \<and>
    jsString b (orElse (getProp p ''alias'') (JStr [])) = Inr a
      \<longrightarrow> searchText b p = Inr (toLowerCase n @ '' '' @ toLowerCase cat @ '' '' @ toLowerCase a)) \<and>
   searchText b (JObj [(''name'', JStr n), (''category'', JStr cat), (''categoryName'', JStr cn),
                        (''alias'', JStr a)])
     = Inr (toLowerCase n @ '' '' @ toLowerCase (if cat = [] then cn else cat) @ '' '' @ toLowerCase a) \<and>
   (searchText b p = Inl e \<longrightarrow> mapApiCategory b p = Inl e) \<and>
   (searchText b p = Inr t \<and> (\<exists>k \<in> set [''burger'', ''big mac'', ''whopper'']. includes' t k)
      \<longrightarrow> mapApiCategory b p = Inr ''burgers'') \<and>
   (searchText b p = Inr t \<and>
    \<not> (\<exists>k \<in> set [''burger'', ''big mac'', ''whopper'']. includes' t k) \<and>
    (\<exists>k \<in> set [''chicken'', ''wing'', ''nugget'']. includes' t k)
      \<longrightarrow> mapApiCategory b p = Inr ''chicken'') \<and>
   (searchText b p = Inr t \<and>
    \<not> (\<exists>k \<in> set [''burger'', ''big mac'', ''whopper'', ''chicken'', ''wing'', ''nugget''].
          includes' t k) \<and>
    (\<exists>k \<in> set [''fries'', ''ring'', ''onion'', ''potato'']. includes' t k)
      \<longrightarrow> mapApiCategory b p = Inr ''sides'') \<and>
   (searchText b p = Inr t \<and>
    \<not> (\<exists>k \<in> set [''burger'', ''big mac'', ''whopper'', ''chicken'', ''wing'', ''nugget'',
                    ''fries'', ''ring'', ''onion'', ''potato''].
          includes' t k) \<and>
    (\<exists>k \<in> set [''cola'', ''drink'', ''juice'', ''coffee'', ''tea'']. includes' t k)
      \<longrightarrow> mapApiCategory b p = Inr ''drinks'') \<and>
   (searchText b p = Inr t \<and>
    \<not> (\<exists>k \<in> set [''burger'', ''big mac'', ''whopper'', ''chicken'', ''wing'', ''nugget'',
                    ''fries'', ''ring'', ''onion'', ''potato'',
                    ''cola'', ''drink'', ''juice'', ''coffee'', ''tea''].
          includes' t k) \<and>
    (\<exists>k \<in> set [''ice cream'', ''dessert'', ''cake'', ''pie'']. includes' t k)
      \<longrightarrow> mapApiCategory b p = Inr ''desserts'') \<and>
   (searchText b p = Inr t \<and>
    \<not> (\<exists>k \<in> set [''burger'', ''big mac'', ''whopper'', ''chicken'', ''wing'', ''nugget'',
                    ''fries'', ''ring'', ''onion'', ''potato'',
                    ''cola'', ''drink'', ''juice'', ''coffee'', ''tea'',
                    ''ice cream'', ''dessert'', ''cake'', ''pie''].
          includes' t k)
      \<longrightarrow> mapApiCategory b p = Inr ''other'')"
proof -
  have ret: "\<exists>c'. mapApiCategory b p = Inr c'"
    if "\<not> nullish p \<and>
        (\<forall>k \<in> set [''name'', ''category'', ''categoryName'', ''alias''].
            \<not> isArray (getProp p k) \<and> \<not> isObject (getProp p k))"
  proof -
    from that searchText_primitive[of p b] obtain t' where "searchText b p = Inr t'" by blast
    then show ?thesis by (simp add: mapApiCategory_def)
  qed
  have err: "mapApiCategory b p = Inl e" if "searchText b p = Inl e"
    using that by (simp add: mapApiCategory_def)
  have rules: "searchText b p = Inr t \<Longrightarrow> mapApiCategory b p =
     Inr (if \<exists>k \<in> set [''burger'', ''big mac'', ''whopper'']. includes' t k then ''burgers''
          else if \<exists>k \<in> set [''chicken'', ''wing'', ''nugget'']. includes' t k then ''chicken''
          else if \<exists>k \<in> set [''fries'', ''ring'', ''onion'', ''potato'']. includes' t k then ''sides''
          else if \<exists>k \<in> set [''cola'', ''drink'', ''juice'', ''coffee'', ''tea'']. includes' t k then ''drinks''
          else if \<exists>k \<in> set [''ice cream'', ''dessert'', ''cake'', ''pie'']. includes' t k then ''desserts''
          else ''other'')"
    by (rule mapApiCategory_rule)
  show ?thesis
    apply (intro conjI impI)
    subgoal by (rule mapApiCategory_in_set)
    subgoal by (rule ret)
    subgoal by (rule searchText_value) simp_all
    subgoal by (rule searchText_strings)
    subgoal by (rule err)
    subgoal using rules by simp
    subgoal using rules by simp
    subgoal using rules by simp
    subgoal using rules by simp
    subgoal using rules by simp
    subgoal using rules by simp
    done
qed

theorem mapApiCategory_closed_witness:
  "searchText exampleBuiltins hotWings = Inr '' hot wings '' \<and>
   mapApiCategory exampleBuiltins hotWings = Inr ''chicken'' \<and>
   (\<exists>c'. mapApiCategory exampleBuiltins hotWings = Inr c') \<and>
   searchText exampleBuiltins aliasOnly = Inr ''menu 7  cola-033'' \<and>
   mapApiCategory exampleBuiltins aliasOnly = Inr ''drinks'' \<and>
   searchText exampleBuiltins categoryFirst = Inr ''sundae desserts '' \<and>
   mapApiCategory exampleBuiltins categoryFirst = Inr ''desserts'' \<and>
   searchText exampleBuiltins pricedByLocation = Inr ''chicken burger  '' \<and>
   mapApiCategory exampleBuiltins pricedByLocation = Inr ''burgers'' \<and>
   searchText exampleBuiltins pricedByProduct = Inr ''fries  '' \<and>
   mapApiCategory exampleBuiltins pricedByProduct = Inr ''sides'' \<and>
   searchText exampleBuiltins tinyPrice = Inr ''napkin  '' \<and>
   mapApiCategory exampleBuiltins tinyPrice = Inr ''other'' \<and>
   ''other'' \<in> {''burgers'', ''chicken'', ''sides'', ''drinks'', ''desserts'', ''other''} \<and>
   searchText exampleBuiltins unconvertible = Inl (TypeError ''Cannot convert object to primitive value'') \<and>
   mapApiCategory exampleBuiltins unconvertible = Inl (TypeError ''Cannot convert object to primitive value'')"
proof -
  note closed = mapApiCategory_closed[where b = exampleBuiltins]
  \<comment> \<open>the search text is built from the three converted fields\<close>
  have n1: "\<not> nullish hotWings" by code_simp
  have f1: "jsString exampleBuiltins (orElse (getProp hotWings ''name'') (JStr [])) = Inr []"
    "jsString exampleBuiltins
       (orElse (orElse (getProp hotWings ''category'') (getProp hotWings ''categoryName'')) (JStr []))
       = Inr ''Hot Wings''"
    "jsString exampleBuiltins (orElse (getProp hotWings ''alias'') (JStr [])) = Inr []"
    by code_simp+
  have lw: "toLowerCase [] @ '' '' @ toLowerCase ''Hot Wings'' @ '' '' @ toLowerCase [] = '' hot wings ''"
    by code_simp
  have "searchText exampleBuiltins hotWings
          = Inr (toLowerCase [] @ '' '' @ toLowerCase ''Hot Wings'' @ '' '' @ toLowerCase [])"
    by (rule closed[where p = hotWings and n = "[]" and cat = "''Hot Wings''" and a = "[]",
          THEN conjunct2, THEN conjunct2, THEN conjunct1, THEN mp, OF conjI[OF n1 conjI[OF f1(1) conjI[OF f1(2) f1(3)]]]])
  then have t1: "searchText exampleBuiltins hotWings = Inr '' hot wings ''"
    by (simp only: lw)
  have p1: "\<forall>k \<in> set [''name'', ''category'', ''categoryName'', ''alias''].
              \<not> isArray (getProp hotWings k) \<and> \<not> isObject (getProp hotWings k)"
    by code_simp
  have r1: "\<exists>c'. mapApiCategory exampleBuiltins hotWings = Inr c'"
    by (rule closed[where p = hotWings, THEN conjunct2, THEN conjunct1, THEN mp, OF conjI[OF n1 p1]])
  \<comment> \<open>the keyword rules, in order\<close>
  have a1: "\<not> (\<exists>k \<in> set [''burger'', ''big mac'', ''whopper'']. includes' '' hot wings '' k)"
    by code_simp
  have b1: "\<exists>k \<in> set [''chicken'', ''wing'', ''nugget'']. includes' '' hot wings '' k"
    by code_simp
  have c1: "mapApiCategory exampleBuiltins hotWings = Inr ''chicken''"
    by (rule closed[where p = hotWings and t = "'' hot wings ''",
          THEN conjunct2, THEN conjunct2, THEN conjunct2, THEN conjunct2, THEN conjunct2, THEN conjunct2, THEN conjunct1, THEN mp, OF conjI[OF t1 conjI[OF a1 b1]]])
  have t2: "searchText exampleBuiltins aliasOnly = Inr ''menu 7  cola-033''" by code_simp
  have a2: "\<not> (\<exists>k \<in> set [''burger'', ''big mac'', ''whopper'', ''chicken'', ''wing'', ''nugget'',
                    ''fries'', ''ring'', ''onion'', ''potato'']. includes' ''menu 7  cola-033'' k)"
    by code_simp
  have b2: "\<exists>k \<in> set [''cola'', ''drink'', ''juice'', ''coffee'', ''tea'']. includes' ''menu 7  cola-033'' k"
    by code_simp
  have c2: "mapApiCategory exampleBuiltins aliasOnly = Inr ''drinks''"
    by (rule closed[where p = aliasOnly and t = "''menu 7  cola-033''",
          THEN conjunct2, THEN conjunct2, THEN conjunct2, THEN conjunct2, THEN conjunct2, THEN conjunct2, THEN conjunct2, THEN conjunct2, THEN conjunct1, THEN mp, OF conjI[OF t2 conjI[OF a2 b2]]])
  have t3: "searchText exampleBuiltins categoryFirst = Inr ''sundae desserts ''" by code_simp
  have a3: "\<not> (\<exists>k \<in> set [''burger'', ''big mac'', ''whopper'', ''chicken'', ''wing'', ''nugget'',
                    ''fries'', ''ring'', ''onion'', ''potato'',
                    ''cola'', ''drink'', ''juice'', ''coffee'', ''tea'']. includes' ''sundae desserts '' k)"
    by code_simp
  have b3: "\<exists>k \<in> set [''ice cream'', ''dessert'', ''cake'', ''pie'']. includes' ''sundae desserts '' k"
    by code_simp
  have c3: "mapApiCategory exampleBuiltins categoryFirst = Inr ''desserts''"
    by (rule closed[where p = categoryFirst and t = "''sundae desserts ''",
          THEN conjunct2, THEN conjunct2, THEN conjunct2, THEN conjunct2, THEN conjunct2, THEN conjunct2, THEN conjunct2, THEN conjunct2, THEN conjunct2, THEN conjunct1, THEN mp, OF conjI[OF t3 conjI[OF a3 b3]]])
  have t4: "searchText exampleBuiltins pricedByLocation = Inr ''chicken burger  ''" by code_simp
  have b4: "\<exists>k \<in> set [''burger'', ''big mac'', ''whopper'']. includes' ''chicken burger  '' k"
    by code_simp
  have c4: "mapApiCategory exampleBuiltins pricedByLocation = Inr ''burgers''"
    by (rule closed[where p = pricedByLocation and t = "''chicken burger  ''",
          THEN conjunct2, THEN conjunct2, THEN conjunct2, THEN conjunct2, THEN conjunct2, THEN conjunct1, THEN mp, OF conjI[OF t4 b4]])
  have t5: "searchText exampleBuiltins pricedByProduct = Inr ''fries  ''" by code_simp
  have a5: "\<not> (\<exists>k \<in> set [''burger'', ''big mac'', ''whopper'', ''chicken'', ''wing'', ''nugget'']. includes' ''fries  '' k)"
    by code_simp
  have b5: "\<exists>k \<in> set [''fries'', ''ring'', ''onion'', ''potato'']. includes' ''fries  '' k"
    by code_simp
  have c5: "mapApiCategory exampleBuiltins pricedByProduct = Inr ''sides''"
    by (rule closed[where p = pricedByProduct and t = "''fries  ''",
          THEN conjunct2, THEN conjunct2, THEN conjunct2, THEN conjunct2, THEN conjunct2, THEN conjunct2, THEN conjunct2, THEN conjunct1, THEN mp, OF conjI[OF t5 conjI[OF a5 b5]]])
  have t6: "searchText exampleBuiltins tinyPrice = Inr ''napkin  ''" by code_simp
  have a6: "\<not> (\<exists>k \<in> set [''burger'', ''big mac'', ''whopper'', ''chicken'', ''wing'', ''nugget'',
                    ''fries'', ''ring'', ''onion'', ''potato'',
                    ''cola'', ''drink'', ''juice'', ''coffee'', ''tea'',
                    ''ice cream'', ''dessert'', ''cake'', ''pie'']. includes' ''napkin  '' k)"
    by code_simp
  have c6: "mapApiCategory exampleBuiltins tinyPrice = Inr ''other''"
    by (rule closed[where p = tinyPrice and t = "''napkin  ''",
          THEN conjunct2, THEN conjunct2, THEN conjunct2, THEN conjunct2, THEN conjunct2, THEN conjunct2, THEN conjunct2, THEN conjunct2, THEN conjunct2, THEN conjunct2, THEN mp, OF conjI[OF t6 a6]])
  have m6: "''other'' \<in> {''burgers'', ''chicken'', ''sides'', ''drinks'', ''desserts'', ''other''}"
    by (rule closed[where p = tinyPrice and c = "''other''", THEN conjunct1, THEN mp, OF c6])
  \<comment> \<open>a field that cannot be converted\<close>
  have t7: "searchText exampleBuiltins unconvertible = Inl (TypeError ''Cannot convert object to primitive value'')"
    by code_simp
  have c7: "mapApiCategory exampleBuiltins unconvertible = Inl (TypeError ''Cannot convert object to primitive value'')"
    by (rule closed[where p = unconvertible and e = "TypeError ''Cannot convert object to primitive value''",
          THEN conjunct2, THEN conjunct2, THEN conjunct2, THEN conjunct2, THEN conjunct1, THEN mp, OF t7])
  show ?thesis
    by (intro conjI t1 c1 r1 t2 c2 t3 c3 t4 c4 t5 c5 t6 c6 m6 t7 c7)
qed

text \<open>
  The claim as stated fails for a payload whose \<^verbatim>\<open>category\<close> is an object with an own
  \<^verbatim>\<open>toString\<close> entry, as \<^verbatim>\<open>JSON.parse\<close> builds it from \<^verbatim>\<open>{"toString": "burgers"}\<close>: \<^verbatim>\<open>String\<close> cannot
  convert it, and the resolution throws a \<^verbatim>\<open>TypeError\<close> instead of returning a tag. It throws as
  well for the payload \<^verbatim>\<open>null\<close>.
\<close>

theorem mapApiCategory_closed_counterexample:
  "getProp unconvertible ''category'' = JObj [(''toString'', JStr ''burgers'')] \<and>
   mapApiCategory exampleBuiltins unconvertible = Inl (TypeError ''Cannot convert object to primitive value'') \<and>
   mapApiCategory exampleBuiltins JNull = Inl nullRead"
  by code_simp

lemma round2_mono: "x \<le> y \<Longrightarrow> round2 x \<le> round2 y"
  unfolding round2_def mathRound_def
  by (intro divide_right_mono iffD2[OF of_int_le_iff] floor_mono) simp_all

lemma round2_nonneg: "0 \<le> x \<Longrightarrow> 0 \<le> round2 x"
  using round2_mono[of 0 x] by (simp add: round2_def mathRound_def)

lemma round2_pos_iff: "0 < round2 v \<longleftrightarrow> 1 / 200 \<le> v"
proof -
  have "0 < round2 v \<longleftrightarrow> 1 \<le> \<lfloor>v * 100 + 1 / 2\<rfloor>"
    by (simp add: round2_def mathRound_def zero_less_divide_iff)
  also have "\<dots> \<longleftrightarrow> 1 \<le> v * 100 + 1 / 2"
    by (simp add: le_floor_iff)
  also have "\<dots> \<longleftrightarrow> 1 / 200 \<le> v" by auto
  finally show ?thesis .
qed

lemma round2_cents: "round2 v * 100 = of_int (mathRound (v * 100))"
  by (simp add: round2_def)

lemma round2_near: "v - 1 / 200 < round2 v \<and> round2 v \<le> v + 1 / 200"
proof -
  have "of_int \<lfloor>v * 100 + 1 / 2\<rfloor> \<le> v * 100 + 1 / 2" by (rule of_int_floor_le)
  moreover have "v * 100 + 1 / 2 - 1 < of_int \<lfloor>v * 100 + 1 / 2\<rfloor>" by linarith
  ultimately show ?thesis by (simp add: round2_def mathRound_def field_simps)
qed

text \<open>What a branch that accepts the value \<open>v\<close> returns.\<close>

lemma round2_accepts:
  "0 < v \<Longrightarrow> 0 \<le> round2 v \<and> (0 < round2 v \<longleftrightarrow> 1 / 200 \<le> v) \<and>
     v - 1 / 200 < round2 v \<and> round2 v \<le> v + 1 / 200 \<and> (\<exists>m::int. round2 v * 100 = of_int m)"
  using round2_nonneg[of v] round2_pos_iff[of v] round2_near[of v] round2_cents[of v] by auto

lemma positiveNumber_pos: "positiveNumber v = Some n \<Longrightarrow> 0 < n"
  by (cases v) (auto split: if_splits)

lemma locationPriceCandidate_pos: "locationPriceCandidate lp = Some n \<Longrightarrow> 0 < n"
  by (auto simp: locationPriceCandidate_def positiveNumber_pos split: if_splits option.splits)

lemma fieldCandidate_pos: "fieldCandidate b v = Some n \<Longrightarrow> 0 < n"
  by (cases v) (auto split: if_splits option.splits)

lemma fieldPrice_candidate: "fieldPrice b v = map_option round2 (fieldCandidate b v)"
  by (cases v) (auto split: option.splits)

lemma scan_step:
  "scanLocationPrices (lp # rest) =
     (case locationPriceCandidate lp of Some n \<Rightarrow> Some (round2 n) | None \<Rightarrow> scanLocationPrices rest)"
  by (auto simp: locationPriceCandidate_def split: option.splits)

lemma scanLocationPrices_first:
  "i < length lps \<Longrightarrow> locationPriceCandidate (lps ! i) = Some v \<Longrightarrow>
   (\<forall>j<i. locationPriceCandidate (lps ! j) = None) \<Longrightarrow> scanLocationPrices lps = Some (round2 v)"
proof (induction lps arbitrary: i)
  case Nil
  then show ?case by simp
next
  case (Cons lp rest)
  show ?case
  proof (cases i)
    case 0
    with Cons.prems show ?thesis by (simp add: scan_step del: scanLocationPrices.simps(2))
  next
    case (Suc k)
    with Cons.prems have "locationPriceCandidate lp = None" by auto
    moreover have "scanLocationPrices rest = Some (round2 v)"
      using Cons.prems Suc by (intro Cons.IH[of k]) auto
    ultimately show ?thesis by (simp add: scan_step del: scanLocationPrices.simps(2))
  qed
qed

lemma scanLocationPrices_none:
  "(\<forall>lp \<in> set lps. locationPriceCandidate lp = None) \<Longrightarrow> scanLocationPrices lps = None"
  by (induction lps) (simp_all add: scan_step del: scanLocationPrices.simps(2))

lemma scanLocationPrices_nonneg: "scanLocationPrices lps = Some p \<Longrightarrow> 0 \<le> p"
proof (induction lps)
  case Nil
  then show ?case by simp
next
  case (Cons lp rest)
  then show ?case
    by (auto simp: scan_step round2_nonneg less_imp_le dest!: locationPriceCandidate_pos
        simp del: scanLocationPrices.simps(2) split: option.splits)
qed

lemma scanPriceFields_first:
  "i < length fs \<Longrightarrow> fieldPrice b (getProp p (fs ! i)) = Some v \<Longrightarrow>
   (\<forall>j<i. fieldPrice b (getProp p (fs ! j)) = None) \<Longrightarrow> scanPriceFields b p fs = Some v"
proof (induction fs arbitrary: i)
  case Nil
  then show ?case by simp
next
  case (Cons f rest)
  show ?case
  proof (cases i)
    case 0
    with Cons.prems show ?thesis by simp
  next
    case (Suc k)
    with Cons.prems have "fieldPrice b (getProp p f) = None" by auto
    moreover have "scanPriceFields b p rest = Some v"
      using Cons.prems Suc by (intro Cons.IH[of k]) auto
    ultimately show ?thesis by simp
  qed
qed

lemma scanPriceFields_none:
  "(\<forall>f \<in> set fs. fieldPrice b (getProp p f) = None) \<Longrightarrow> scanPriceFields b p fs = None"
  by (induction fs) simp_all

lemma fieldPrice_nonneg: "fieldPrice b v = Some p \<Longrightarrow> 0 \<le> p"
  by (cases v) (auto simp: round2_nonneg split: if_splits option.splits)

lemma scanPriceFields_nonneg: "scanPriceFields b p fs = Some x \<Longrightarrow> 0 \<le> x"
  by (induction fs) (auto dest: fieldPrice_nonneg split: option.splits)

lemma basePrices_bounds: "map_of basePrices c = Some (mn, mx) \<Longrightarrow> 5 \<le> mn \<and> mn \<le> mx"
  by (auto simp: basePrices_def split: if_splits)

lemma priceMultiplier_bound: "7 / 10 \<le> priceMultiplier n"
  by (simp add: priceMultiplier_def Let_def)

lemma fallback_value:
  assumes "generateCategoryBasedPrice b rnd p = Inr x"
  obtains c str mn mx where
    "(case map_of basePrices c of Some bounds \<Rightarrow> bounds | None \<Rightarrow> (10, 25)) = (mn, mx)"
    "x = round2 ((rnd * (mx - mn) + mn) * priceMultiplier (toLowerCase str))"
proof -
  from assms obtain c where c: "mapApiCategory b p = Inr c"
    by (auto simp: generateCategoryBasedPrice_def split: sum.splits)
  from assms c obtain str where str: "jsString b (orElse (getProp p ''name'') (JStr [])) = Inr str"
    by (auto simp: generateCategoryBasedPrice_def split: sum.splits)
  obtain mn mx where mm: "(case map_of basePrices c of Some bounds \<Rightarrow> bounds | None \<Rightarrow> (10::rat, 25::rat)) = (mn, mx)"
    by (cases "case map_of basePrices c of Some bounds \<Rightarrow> bounds | None \<Rightarrow> (10::rat, 25::rat)") auto
  have "x = round2 ((rnd * (mx - mn) + mn) * priceMultiplier (toLowerCase str))"
    using assms c str mm by (simp add: generateCategoryBasedPrice_def Let_def)
  with mm show ?thesis by (rule that)
qed

lemma fallback_bound:
  assumes "generateCategoryBasedPrice b rnd p = Inr x" and "0 \<le> rnd"
  shows "7 / 2 \<le> x"
proof -
  from assms(1) obtain c str mn mx where
    mm: "(case map_of basePrices c of Some bounds \<Rightarrow> bounds | None \<Rightarrow> (10, 25)) = (mn, mx)"
    and x: "x = round2 ((rnd * (mx - mn) + mn) * priceMultiplier (toLowerCase str))"
    by (rule fallback_value)
  have b: "5 \<le> mn \<and> mn \<le> mx"
    using mm basePrices_bounds[of c mn mx] by (auto split: option.splits)
  define m where "m = priceMultiplier (toLowerCase str)"
  have m: "7 / 10 \<le> m" unfolding m_def by (rule priceMultiplier_bound)
  have "0 \<le> rnd * (mx - mn)" using assms(2) b by simp
  then have bp: "5 \<le> rnd * (mx - mn) + mn" using b by linarith
  have "5 * (7 / 10) \<le> (rnd * (mx - mn) + mn) * m"
    by (rule mult_mono[OF bp m]) (use bp in simp_all)
  then have "round2 (7 / 2) \<le> round2 ((rnd * (mx - mn) + mn) * m)"
    by (intro round2_mono) simp
  moreover have "round2 (7 / 2) = 7 / 2" by code_simp
  ultimately show ?thesis by (simp add: x m_def)
qed

lemma searchText_name:
  "searchText b p = Inr t \<Longrightarrow> \<exists>str. jsString b (orElse (getProp p ''name'') (JStr [])) = Inr str"
  by (cases "jsString b (orElse (getProp p ''name'') (JStr []))")
     (simp_all add: searchText_def split: if_splits)

lemma fallback_returns:
  assumes "searchText b p = Inr t"
  shows "\<exists>x. generateCategoryBasedPrice b rnd p = Inr x"
proof -
  from assms obtain c where c: "mapApiCategory b p = Inr c"
    by (simp add: mapApiCategory_def)
  from searchText_name[OF assms] obtain str
    where str: "jsString b (orElse (getProp p ''name'') (JStr [])) = Inr str" ..
  show ?thesis
    by (simp add: generateCategoryBasedPrice_def c str Let_def split: prod.splits)
qed

lemma fallback_throws:
  "searchText b p = Inl e \<Longrightarrow> generateCategoryBasedPrice b rnd p = Inl e"
  by (simp add: generateCategoryBasedPrice_def mapApiCategory_def)

lemma getProp_nullish: "nullish p \<Longrightarrow> getProp p k = JUndefined"
  by (cases p) simp_all

lemma no_location_hit:
  "(\<forall>lps. getProp p ''locationPrices'' = JArr lps \<longrightarrow> (\<forall>lp \<in> set lps. locationPriceCandidate lp = None))
     \<Longrightarrow> (case getProp p ''locationPrices'' of JArr lps \<Rightarrow> scanLocationPrices lps | _ \<Rightarrow> None) = None"
  by (cases "getProp p ''locationPrices''") (simp_all add: scanLocationPrices_none)

lemma price_by_location:
  assumes "getProp p ''locationPrices'' = JArr lps" "i < length lps"
    "locationPriceCandidate (lps ! i) = Some v" "\<forall>j<i. locationPriceCandidate (lps ! j) = None"
  shows "extractPriceEnhanced b rnd p = Inr (round2 v)"
proof -
  have "\<not> nullish p" using assms(1) getProp_nullish[of p] by auto
  then show ?thesis
    using assms scanLocationPrices_first[of i lps v] by (simp add: extractPriceEnhanced_def)
qed

lemma price_by_product:
  assumes "\<forall>lps. getProp p ''locationPrices'' = JArr lps \<longrightarrow> (\<forall>lp \<in> set lps. locationPriceCandidate lp = None)"
    "getProp p ''unitPriceWithVat'' = JNum u" "0 < u"
  shows "extractPriceEnhanced b rnd p = Inr (round2 u)"
proof -
  have "\<not> nullish p" using assms(2) getProp_nullish[of p] by auto
  then show ?thesis
    using assms no_location_hit[of p] by (simp add: extractPriceEnhanced_def)
qed

lemma price_by_field:
  assumes "\<forall>lps. getProp p ''locationPrices'' = JArr lps \<longrightarrow> (\<forall>lp \<in> set lps. locationPriceCandidate lp = None)"
    "positiveNumber (getProp p ''unitPriceWithVat'') = None" "k < length priceFields"
    "fieldPrice b (getProp p (priceFields ! k)) = Some w"
    "\<forall>j<k. fieldPrice b (getProp p (priceFields ! j)) = None"
  shows "extractPriceEnhanced b rnd p = Inr w"
proof -
  have "\<not> nullish p" using assms(4) getProp_nullish[of p] by auto
  then show ?thesis
    using assms no_location_hit[of p] scanPriceFields_first[of k priceFields b p w]
    by (simp add: extractPriceEnhanced_def)
qed

lemma price_by_fallback:
  assumes "\<forall>lps. getProp p ''locationPrices'' = JArr lps \<longrightarrow> (\<forall>lp \<in> set lps. locationPriceCandidate lp = None)"
    "positiveNumber (getProp p ''unitPriceWithVat'') = None"
    "\<forall>f \<in> set priceFields. fieldPrice b (getProp p f) = None"
  shows "extractPriceEnhanced b rnd p = generateCategoryBasedPrice b rnd p"
proof (cases "nullish p")
  case True
  then show ?thesis
    by (simp add: extractPriceEnhanced_def generateCategoryBasedPrice_def mapApiCategory_def searchText_def)
next
  case False
  then show ?thesis
    using assms no_location_hit[of p] scanPriceFields_none[of priceFields b p]
    by (simp add: extractPriceEnhanced_def)
qed

lemma location_scan_nonneg:
  "(case getProp p ''locationPrices'' of JArr lps \<Rightarrow> scanLocationPrices lps | _ \<Rightarrow> None) = Some x
     \<Longrightarrow> 0 \<le> x"
  by (cases "getProp p ''locationPrices''") (auto dest: scanLocationPrices_nonneg)

lemma price_nonneg:
  assumes "extractPriceEnhanced b rnd p = Inr x" "0 \<le> rnd"
  shows "0 \<le> x"
proof -
  let ?loc = "case getProp p ''locationPrices'' of JArr lps \<Rightarrow> scanLocationPrices lps | _ \<Rightarrow> None"
  from assms(1) have n: "\<not> nullish p"
    by (auto simp: extractPriceEnhanced_def split: if_splits)
  show ?thesis
  proof (cases ?loc)
    case (Some y)
    with assms(1) n have "x = y" by (simp add: extractPriceEnhanced_def)
    with Some location_scan_nonneg[of p y] show ?thesis by simp
  next
    case None
    note loc = this
    show ?thesis
    proof (cases "positiveNumber (getProp p ''unitPriceWithVat'')")
      case (Some u)
      with assms(1) n loc have "x = round2 u" by (simp add: extractPriceEnhanced_def)
      with positiveNumber_pos[OF Some] round2_nonneg[of u] show ?thesis by simp
    next
      case None
      note prod = this
      show ?thesis
      proof (cases "scanPriceFields b p priceFields")
        case (Some w)
        with assms(1) n loc prod have "x = w" by (simp add: extractPriceEnhanced_def)
        with scanPriceFields_nonneg[OF Some] show ?thesis by simp
      next
        case None
        with assms(1) n loc prod have "generateCategoryBasedPrice b rnd p = Inr x"
          by (simp add: extractPriceEnhanced_def)
        from fallback_bound[OF this assms(2)] show ?thesis by linarith
      qed
    qed
  qed
qed

lemma price_returns:
  assumes "searchText b p = Inr t"
  shows "\<exists>x. extractPriceEnhanced b rnd p = Inr x"
proof -
  have "\<not> nullish p" using assms by (auto simp: searchText_def split: if_splits)
  with fallback_returns[OF assms, of rnd] show ?thesis
    by (auto simp: extractPriceEnhanced_def split: option.splits)
qed

text \<open>
  Claim C4. The price is resolved in a fixed priority order. (1) The first entry of the
  location price list that offers a positive numeric \<^verbatim>\<open>unitPriceWithVat\<close> or \<^verbatim>\<open>price\<close> decides,
  whatever the product-level fields hold. (2) When no entry offers one, a positive numeric
  product-level \<^verbatim>\<open>unitPriceWithVat\<close> decides. (3) Failing that, the first of the fields
  \<^verbatim>\<open>price\<close>, \<^verbatim>\<open>unitPrice\<close>, \<^verbatim>\<open>cost\<close>, \<^verbatim>\<open>amount\<close>, \<^verbatim>\<open>basePrice\<close> that holds a positive number, or a
  string that \<^verbatim>\<open>parseFloat\<close> reads as a positive number, decides. (4) Failing that, the price
  is the category-based fallback. Every decided value is rounded to two decimals. A product
  with \<^verbatim>\<open>locationPrices[0].unitPriceWithVat = 12.345\<close> and \<^verbatim>\<open>price = 99\<close> resolves to 12.35.
\<close>

theorem extractPriceEnhanced_priority:
  "(getProp p ''locationPrices'' = JArr lps \<and> i < length lps \<and>
    locationPriceCandidate (lps ! i) = Some v \<and> (\<forall>j<i. locationPriceCandidate (lps ! j) = None)
      \<longrightarrow> extractPriceEnhanced b rnd p = Inr (round2 v)) \<and>
   ((\<forall>lps. getProp p ''locationPrices'' = JArr lps \<longrightarrow> (\<forall>lp \<in> set lps. locationPriceCandidate lp = None)) \<and>
    getProp p ''unitPriceWithVat'' = JNum u \<and> 0 < u
      \<longrightarrow> extractPriceEnhanced b rnd p = Inr (round2 u)) \<and>
   ((\<forall>lps. getProp p ''locationPrices'' = JArr lps \<longrightarrow> (\<forall>lp \<in> set lps. locationPriceCandidate lp = None)) \<and>
    positiveNumber (getProp p ''unitPriceWithVat'') = None \<and> k < length priceFields \<and>
    fieldPrice b (getProp p (priceFields ! k)) = Some w \<and>
    (\<forall>j<k. fieldPrice b (getProp p (priceFields ! j)) = None)
      \<longrightarrow> extractPriceEnhanced b rnd p = Inr w) \<and>
   ((\<forall>lps. getProp p ''locationPrices'' = JArr lps \<longrightarrow> (\<forall>lp \<in> set lps. locationPriceCandidate lp = None)) \<and>
    positiveNumber (getProp p ''unitPriceWithVat'') = None \<and>
    (\<forall>f \<in> set priceFields. fieldPrice b (getProp p f) = None)
      \<longrightarrow> extractPriceEnhanced b rnd p = generateCategoryBasedPrice b rnd p) \<and>
   priceFields = [''price'', ''unitPrice'', ''cost'', ''amount'', ''basePrice''] \<and>
   fieldPrice b (JNum n) = (if 0 < n then Some (round2 n) else None) \<and>
   fieldPrice b (JStr str) = (case parseFloat b str of
                                Some parsed \<Rightarrow> if 0 < parsed then Some (round2 parsed) else None
                              | None \<Rightarrow> None) \<and>
   extractPriceEnhanced b rnd pricedByLocation = Inr (1235 / 100)"
proof -
  have r: "round2 (2469 / 200) = 247 / 20" by code_simp
  have c5: "extractPriceEnhanced b rnd pricedByLocation = Inr (1235 / 100)"
    by (simp add: extractPriceEnhanced_def pricedByLocation_def r)
  show ?thesis
    apply (intro conjI impI)
    subgoal using price_by_location[of p lps i v b rnd] by simp
    subgoal using price_by_product[of p u b rnd] by simp
    subgoal using price_by_field[of p k b w rnd] by simp
    subgoal using price_by_fallback[of p b rnd] by simp
    subgoal by (simp add: priceFields_def)
    subgoal by simp
    subgoal by simp
    subgoal by (rule c5)
    done
qed

theorem extractPriceEnhanced_priority_witness:
  "extractPriceEnhanced exampleBuiltins 0 pricedByLocation = Inr (round2 (12345 / 1000)) \<and>
   round2 (12345 / 1000) = 1235 / 100 \<and>
   getProp pricedByLocation ''price'' = JNum 99 \<and>
   extractPriceEnhanced exampleBuiltins 0 pricedByProduct = Inr (round2 7) \<and>
   extractPriceEnhanced exampleBuiltins 0 pricedByField = Inr (5 / 2) \<and>
   extractPriceEnhanced exampleBuiltins 0 unpriced = generateCategoryBasedPrice exampleBuiltins 0 unpriced"
proof -
  let ?lp = "JObj [(''unitPriceWithVat'', JNum (12345 / 1000))]"
  have a1: "getProp pricedByLocation ''locationPrices'' = JArr [?lp] \<and> 0 < length [?lp] \<and>
      locationPriceCandidate ([?lp] ! 0) = Some (12345 / 1000) \<and>
      (\<forall>j<0. locationPriceCandidate ([?lp] ! j) = None)"
    by (simp add: pricedByLocation_def locationPriceCandidate_def)
  have nl2: "\<forall>lps. getProp pricedByProduct ''locationPrices'' = JArr lps
      \<longrightarrow> (\<forall>lp \<in> set lps. locationPriceCandidate lp = None)"
    by (simp add: pricedByProduct_def locationPriceCandidate_def)
  have a2: "getProp pricedByProduct ''unitPriceWithVat'' = JNum 7 \<and> (0::rat) < 7"
    by (simp add: pricedByProduct_def)
  have nl3: "\<forall>lps. getProp pricedByField ''locationPrices'' = JArr lps
      \<longrightarrow> (\<forall>lp \<in> set lps. locationPriceCandidate lp = None)"
    by (simp add: pricedByField_def)
  have r3: "round2 (5 / 2) = 5 / 2" by code_simp
  have a3: "positiveNumber (getProp pricedByField ''unitPriceWithVat'') = None \<and> 1 < length priceFields \<and>
      fieldPrice exampleBuiltins (getProp pricedByField (priceFields ! 1)) = Some (5 / 2) \<and>
      (\<forall>j<1. fieldPrice exampleBuiltins (getProp pricedByField (priceFields ! j)) = None)"
    by (simp add: pricedByField_def priceFields_def r3)
  have nl4: "\<forall>lps. getProp unpriced ''locationPrices'' = JArr lps
      \<longrightarrow> (\<forall>lp \<in> set lps. locationPriceCandidate lp = None)"
    by (simp add: unpriced_def)
  have a4: "positiveNumber (getProp unpriced ''unitPriceWithVat'') = None \<and>
      (\<forall>f \<in> set priceFields. fieldPrice exampleBuiltins (getProp unpriced f) = None)"
    by (simp add: unpriced_def priceFields_def)
  have r: "round2 (12345 / 1000) = 1235 / 100" by code_simp
  have p: "getProp pricedByLocation ''price'' = JNum 99" by (simp add: pricedByLocation_def)
  from extractPriceEnhanced_priority[of pricedByLocation "[?lp]" 0 "12345 / 1000" exampleBuiltins 0] a1
  have w1: "extractPriceEnhanced exampleBuiltins 0 pricedByLocation = Inr (round2 (12345 / 1000))" by blast
  from extractPriceEnhanced_priority[of pricedByProduct _ _ _ exampleBuiltins 0 7] nl2 a2
  have w2: "extractPriceEnhanced exampleBuiltins 0 pricedByProduct = Inr (round2 7)" by blast
  from extractPriceEnhanced_priority[of pricedByField _ _ _ exampleBuiltins 0 _ 1 "5 / 2"] nl3 a3
  have w3: "extractPriceEnhanced exampleBuiltins 0 pricedByField = Inr (5 / 2)" by blast
  from extractPriceEnhanced_priority[of unpriced _ _ _ exampleBuiltins 0] nl4 a4
  have w4: "extractPriceEnhanced exampleBuiltins 0 unpriced = generateCategoryBasedPrice exampleBuiltins 0 unpriced"
    by blast
  from w1 w2 w3 w4 r p show ?thesis by blast
qed

text \<open>
  Claim C10, as amended. Whenever the price resolution returns, for a random draw that is
  not negative, the price is not negative. A branch that accepts the value \<open>v\<close> (the first
  candidate of the location price list, else the product-level \<^verbatim>\<open>unitPriceWithVat\<close>, else the
  first candidate among the price fields) accepts it only when \<open>v\<close> is greater than zero and
  returns \<open>v\<close> rounded to a whole number of hundredths, at most 0.005 away from \<open>v\<close>: the
  returned price is positive exactly when \<open>v\<close> is at least 0.005, and it is zero otherwise.
  When no branch accepts a value the price is the category-based fallback, which is at least
  3.5 whenever it returns: the per-category minima are at least 5 and the multiplier is at
  least 0.7. The fallback, and with it the resolution, returns whenever the search text of
  the category resolution can be built, and throws the error of that conversion otherwise;
  the resolution throws for the payload \<^verbatim>\<open>null\<close>.
\<close>

theorem extractPriceEnhanced_nonneg:
  "(extractPriceEnhanced b rnd p = Inr x \<and> 0 \<le> rnd \<longrightarrow> 0 \<le> x) \<and>
   (getProp p ''locationPrices'' = JArr lps \<and> i < length lps \<and>
    locationPriceCandidate (lps ! i) = Some v \<and> (\<forall>j<i. locationPriceCandidate (lps ! j) = None)
      \<longrightarrow> 0 < v \<and>
          (\<exists>y. extractPriceEnhanced b rnd p = Inr y \<and> 0 \<le> y \<and> (0 < y \<longleftrightarrow> 1 / 200 \<le> v) \<and>
               v - 1 / 200 < y \<and> y \<le> v + 1 / 200 \<and> (\<exists>m::int. y * 100 = of_int m))) \<and>
   ((\<forall>lps. getProp p ''locationPrices'' = JArr lps \<longrightarrow> (\<forall>lp \<in> set lps. locationPriceCandidate lp = None)) \<and>
    getProp p ''unitPriceWithVat'' = JNum u \<and> 0 < u
      \<longrightarrow> (\<exists>y. extractPriceEnhanced b rnd p = Inr y \<and> 0 \<le> y \<and> (0 < y \<longleftrightarrow> 1 / 200 \<le> u) \<and>
               u - 1 / 200 < y \<and> y \<le> u + 1 / 200 \<and> (\<exists>m::int. y * 100 = of_int m))) \<and>
   ((\<forall>lps. getProp p ''locationPrices'' = JArr lps \<longrightarrow> (\<forall>lp \<in> set lps. locationPriceCandidate lp = None)) \<and>
    positiveNumber (getProp p ''unitPriceWithVat'') = None \<and> k < length priceFields \<and>
    fieldCandidate b (getProp p (priceFields ! k)) = Some w \<and>
    (\<forall>j<k. fieldCandidate b (getProp p (priceFields ! j)) = None)
      \<longrightarrow> 0 < w \<and>
          (\<exists>y. extractPriceEnhanced b rnd p = Inr y \<and> 0 \<le> y \<and> (0 < y \<longleftrightarrow> 1 / 200 \<le> w) \<and>
               w - 1 / 200 < y \<and> y \<le> w + 1 / 200 \<and> (\<exists>m::int. y * 100 = of_int m))) \<and>
   ((\<forall>lps. getProp p ''locationPrices'' = JArr lps \<longrightarrow> (\<forall>lp \<in> set lps. locationPriceCandidate lp = None)) \<and>
    positiveNumber (getProp p ''unitPriceWithVat'') = None \<and>
    (\<forall>f \<in> set priceFields. fieldCandidate b (getProp p f) = None)
      \<longrightarrow> extractPriceEnhanced b rnd p = generateCategoryBasedPrice b rnd p) \<and>
   (generateCategoryBasedPrice b rnd p = Inr x \<and> 0 \<le> rnd \<longrightarrow> 7 / 2 \<le> x) \<and>
   (searchText b p = Inr t
      \<longrightarrow> (\<exists>y. generateCategoryBasedPrice b rnd p = Inr y) \<and> (\<exists>y. extractPriceEnhanced b rnd p = Inr y)) \<and>
   (searchText b p = Inl e \<longrightarrow> generateCategoryBasedPrice b rnd p = Inl e) \<and>
   (nullish p \<longrightarrow> extractPriceEnhanced b rnd p = Inl nullRead) \<and>
   (map_of basePrices c = Some (mn, mx) \<longrightarrow> 5 \<le> mn \<and> mn \<le> mx) \<and>
   7 / 10 \<le> priceMultiplier str"
proof -
  have c2: "0 < v \<and>
          (\<exists>y. extractPriceEnhanced b rnd p = Inr y \<and> 0 \<le> y \<and> (0 < y \<longleftrightarrow> 1 / 200 \<le> v) \<and>
               v - 1 / 200 < y \<and> y \<le> v + 1 / 200 \<and> (\<exists>m::int. y * 100 = of_int m))"
    if h: "getProp p ''locationPrices'' = JArr lps \<and> i < length lps \<and>
        locationPriceCandidate (lps ! i) = Some v \<and> (\<forall>j<i. locationPriceCandidate (lps ! j) = None)"
  proof -
    from h have v: "0 < v" by (auto dest: locationPriceCandidate_pos)
    from h have "extractPriceEnhanced b rnd p = Inr (round2 v)"
      by (intro price_by_location[of p lps i v]) simp_all
    with round2_accepts[OF v] v show ?thesis by simp
  qed
  have c3: "\<exists>y. extractPriceEnhanced b rnd p = Inr y \<and> 0 \<le> y \<and> (0 < y \<longleftrightarrow> 1 / 200 \<le> u) \<and>
               u - 1 / 200 < y \<and> y \<le> u + 1 / 200 \<and> (\<exists>m::int. y * 100 = of_int m)"
    if h: "(\<forall>lps. getProp p ''locationPrices'' = JArr lps \<longrightarrow> (\<forall>lp \<in> set lps. locationPriceCandidate lp = None)) \<and>
        getProp p ''unitPriceWithVat'' = JNum u \<and> 0 < u"
  proof -
    from h have u: "0 < u" by simp
    from h have "extractPriceEnhanced b rnd p = Inr (round2 u)"
      by (intro price_by_product[of p u]) simp_all
    with round2_accepts[OF u] show ?thesis by simp
  qed
  have c4: "0 < w \<and>
          (\<exists>y. extractPriceEnhanced b rnd p = Inr y \<and> 0 \<le> y \<and> (0 < y \<longleftrightarrow> 1 / 200 \<le> w) \<and>
               w - 1 / 200 < y \<and> y \<le> w + 1 / 200 \<and> (\<exists>m::int. y * 100 = of_int m))"
    if h: "(\<forall>lps. getProp p ''locationPrices'' = JArr lps \<longrightarrow> (\<forall>lp \<in> set lps. locationPriceCandidate lp = None)) \<and>
        positiveNumber (getProp p ''unitPriceWithVat'') = None \<and> k < length priceFields \<and>
        fieldCandidate b (getProp p (priceFields ! k)) = Some w \<and>
        (\<forall>j<k. fieldCandidate b (getProp p (priceFields ! j)) = None)"
  proof -
    from h have w: "0 < w" by (auto dest: fieldCandidate_pos)
    from h have "extractPriceEnhanced b rnd p = Inr (round2 w)"
      by (intro price_by_field[of p k b "round2 w"]) (simp_all add: fieldPrice_candidate)
    with round2_accepts[OF w] w show ?thesis by simp
  qed
  have c5: "extractPriceEnhanced b rnd p = generateCategoryBasedPrice b rnd p"
    if h: "(\<forall>lps. getProp p ''locationPrices'' = JArr lps \<longrightarrow> (\<forall>lp \<in> set lps. locationPriceCandidate lp = None)) \<and>
        positiveNumber (getProp p ''unitPriceWithVat'') = None \<and>
        (\<forall>f \<in> set priceFields. fieldCandidate b (getProp p f) = None)"
    using h by (intro price_by_fallback) (simp_all add: fieldPrice_candidate)
  show ?thesis
    apply (intro conjI impI)
    subgoal using price_nonneg[of b rnd p x] by simp
    subgoal using c2 by simp
    subgoal using c2 by simp
    subgoal by (rule c3)
    subgoal using c4 by simp
    subgoal using c4 by simp
    subgoal by (rule c5)
    subgoal using fallback_bound[of b rnd p x] by simp
    subgoal by (rule fallback_returns)
    subgoal by (rule price_returns)
    subgoal by (rule fallback_throws)
    subgoal by (simp add: extractPriceEnhanced_def)
    subgoal using basePrices_bounds[of c mn mx] by simp
    subgoal using basePrices_bounds[of c mn mx] by simp
    subgoal by (rule priceMultiplier_bound)
    done
qed

theorem extractPriceEnhanced_nonneg_witness:
  "(\<exists>y. extractPriceEnhanced exampleBuiltins 0 pricedByLocation = Inr y \<and> 0 < y) \<and>
   extractPriceEnhanced exampleBuiltins 0 pricedByLocation = Inr (1235 / 100) \<and>
   (\<exists>y. extractPriceEnhanced exampleBuiltins 0 pricedByProduct = Inr y \<and> 0 < y) \<and>
   extractPriceEnhanced exampleBuiltins 0 pricedByProduct = Inr 7 \<and>
   (\<exists>y. extractPriceEnhanced parsingBuiltins 0 pricedByString = Inr y \<and> 0 < y) \<and>
   extractPriceEnhanced parsingBuiltins 0 pricedByString = Inr (5 / 2) \<and>
   (\<exists>y. extractPriceEnhanced exampleBuiltins 0 tinyPrice = Inr y \<and> 0 \<le> y \<and> \<not> 0 < y) \<and>
   extractPriceEnhanced exampleBuiltins 0 tinyPrice = Inr 0 \<and>
   extractPriceEnhanced exampleBuiltins (1 / 2) unpriced
     = generateCategoryBasedPrice exampleBuiltins (1 / 2) unpriced \<and>
   generateCategoryBasedPrice exampleBuiltins (1 / 2) unpriced = Inr (17 / 2) \<and>
   (7::rat) / 2 \<le> 17 / 2 \<and> (0::rat) \<le> 17 / 2 \<and>
   extractPriceEnhanced exampleBuiltins 0 JNull = Inl nullRead"
proof -
  \<comment> \<open>a location price of 12.345\<close>
  let ?lp = "JObj [(''unitPriceWithVat'', JNum (12345 / 1000))]"
  have a1: "getProp pricedByLocation ''locationPrices'' = JArr [?lp] \<and> 0 < length [?lp] \<and>
      locationPriceCandidate ([?lp] ! 0) = Some (12345 / 1000) \<and>
      (\<forall>j<0. locationPriceCandidate ([?lp] ! j) = None)"
    by (simp add: pricedByLocation_def locationPriceCandidate_def)
  from extractPriceEnhanced_nonneg[where b = exampleBuiltins and rnd = 0 and p = pricedByLocation
      and lps = "[?lp]" and i = 0 and v = "12345 / 1000",
      THEN conjunct2, THEN conjunct1, THEN mp, OF a1]
  obtain y1 where y1: "extractPriceEnhanced exampleBuiltins 0 pricedByLocation = Inr y1"
    "0 < y1 \<longleftrightarrow> (1::rat) / 200 \<le> 12345 / 1000"
    by blast
  then have w1: "\<exists>y. extractPriceEnhanced exampleBuiltins 0 pricedByLocation = Inr y \<and> 0 < y"
    by simp
  have e1: "extractPriceEnhanced exampleBuiltins 0 pricedByLocation = Inr (1235 / 100)"
    by code_simp
  \<comment> \<open>a product-level price of 7\<close>
  have a2: "(\<forall>lps. getProp pricedByProduct ''locationPrices'' = JArr lps
      \<longrightarrow> (\<forall>lp \<in> set lps. locationPriceCandidate lp = None)) \<and>
      getProp pricedByProduct ''unitPriceWithVat'' = JNum 7 \<and> (0::rat) < 7"
    by (simp add: pricedByProduct_def locationPriceCandidate_def)
  from extractPriceEnhanced_nonneg[where b = exampleBuiltins and rnd = 0 and p = pricedByProduct
      and u = 7,
      THEN conjunct2, THEN conjunct2, THEN conjunct1, THEN mp, OF a2]
  obtain y2 where y2: "extractPriceEnhanced exampleBuiltins 0 pricedByProduct = Inr y2"
    "0 < y2 \<longleftrightarrow> (1::rat) / 200 \<le> 7"
    by blast
  then have w2: "\<exists>y. extractPriceEnhanced exampleBuiltins 0 pricedByProduct = Inr y \<and> 0 < y"
    by simp
  have e2: "extractPriceEnhanced exampleBuiltins 0 pricedByProduct = Inr 7"
    by code_simp
  \<comment> \<open>a price field that holds the string 2.50\<close>
  have a3: "(\<forall>lps. getProp pricedByString ''locationPrices'' = JArr lps
      \<longrightarrow> (\<forall>lp \<in> set lps. locationPriceCandidate lp = None)) \<and>
      positiveNumber (getProp pricedByString ''unitPriceWithVat'') = None \<and> 2 < length priceFields \<and>
      fieldCandidate parsingBuiltins (getProp pricedByString (priceFields ! 2)) = Some (5 / 2) \<and>
      (\<forall>j<2. fieldCandidate parsingBuiltins (getProp pricedByString (priceFields ! j)) = None)"
    by (simp add: pricedByString_def priceFields_def parsingBuiltins_def exampleBuiltins_def
        less_2_cases_iff)
  from extractPriceEnhanced_nonneg[where b = parsingBuiltins and rnd = 0 and p = pricedByString
      and k = 2 and w = "5 / 2",
      THEN conjunct2, THEN conjunct2, THEN conjunct2, THEN conjunct1, THEN mp, OF a3]
  obtain y3 where y3: "extractPriceEnhanced parsingBuiltins 0 pricedByString = Inr y3"
    "0 < y3 \<longleftrightarrow> (1::rat) / 200 \<le> 5 / 2"
    by blast
  then have w3: "\<exists>y. extractPriceEnhanced parsingBuiltins 0 pricedByString = Inr y \<and> 0 < y"
    by simp
  have e3: "extractPriceEnhanced parsingBuiltins 0 pricedByString = Inr (5 / 2)"
    by code_simp
  \<comment> \<open>a price field that holds 0.004\<close>
  have a4: "(\<forall>lps. getProp tinyPrice ''locationPrices'' = JArr lps
      \<longrightarrow> (\<forall>lp \<in> set lps. locationPriceCandidate lp = None)) \<and>
      positiveNumber (getProp tinyPrice ''unitPriceWithVat'') = None \<and> 0 < length priceFields \<and>
      fieldCandidate exampleBuiltins (getProp tinyPrice (priceFields ! 0)) = Some (4 / 1000) \<and>
      (\<forall>j<0. fieldCandidate exampleBuiltins (getProp tinyPrice (priceFields ! j)) = None)"
    by (simp add: tinyPrice_def priceFields_def)
  from extractPriceEnhanced_nonneg[where b = exampleBuiltins and rnd = 0 and p = tinyPrice
      and k = 0 and w = "4 / 1000",
      THEN conjunct2, THEN conjunct2, THEN conjunct2, THEN conjunct1, THEN mp, OF a4]
  obtain y4 where y4: "extractPriceEnhanced exampleBuiltins 0 tinyPrice = Inr y4" "0 \<le> y4"
    "0 < y4 \<longleftrightarrow> (1::rat) / 200 \<le> 4 / 1000"
    by blast
  then have w4: "\<exists>y. extractPriceEnhanced exampleBuiltins 0 tinyPrice = Inr y \<and> 0 \<le> y \<and> \<not> 0 < y"
    by simp
  have e4: "extractPriceEnhanced exampleBuiltins 0 tinyPrice = Inr 0"
    by code_simp
  \<comment> \<open>no price at all\<close>
  have a5: "(\<forall>lps. getProp unpriced ''locationPrices'' = JArr lps
      \<longrightarrow> (\<forall>lp \<in> set lps. locationPriceCandidate lp = None)) \<and>
      positiveNumber (getProp unpriced ''unitPriceWithVat'') = None \<and>
      (\<forall>f \<in> set priceFields. fieldCandidate exampleBuiltins (getProp unpriced f) = None)"
    by (simp add: unpriced_def priceFields_def)
  have w5: "extractPriceEnhanced exampleBuiltins (1 / 2) unpriced
              = generateCategoryBasedPrice exampleBuiltins (1 / 2) unpriced"
    by (rule extractPriceEnhanced_nonneg[where b = exampleBuiltins and p = unpriced,
          THEN conjunct2, THEN conjunct2, THEN conjunct2, THEN conjunct2, THEN conjunct1,
          THEN mp, OF a5])
  have e5: "generateCategoryBasedPrice exampleBuiltins (1 / 2) unpriced = Inr (17 / 2)"
    by code_simp
  have h: "(0::rat) \<le> 1 / 2" by simp
  have w6: "(7::rat) / 2 \<le> 17 / 2"
    by (rule extractPriceEnhanced_nonneg[where b = exampleBuiltins and p = unpriced and rnd = "1 / 2"
          and x = "17 / 2",
          THEN conjunct2, THEN conjunct2, THEN conjunct2, THEN conjunct2, THEN conjunct2,
          THEN conjunct1, THEN mp, OF conjI[OF e5 h]])
  have w7: "(0::rat) \<le> 17 / 2"
    by (rule extractPriceEnhanced_nonneg[where b = exampleBuiltins and p = unpriced and rnd = "1 / 2"
          and x = "17 / 2", THEN conjunct1, THEN mp, OF conjI[OF trans[OF w5 e5] h]])
  have n: "nullish JNull" by simp
  have w8: "extractPriceEnhanced exampleBuiltins 0 JNull = Inl nullRead"
    by (rule extractPriceEnhanced_nonneg[where p = JNull,
          THEN conjunct2, THEN conjunct2, THEN conjunct2, THEN conjunct2, THEN conjunct2,
          THEN conjunct2, THEN conjunct2, THEN conjunct2, THEN conjunct1, THEN mp, OF n])
  show ?thesis
    by (intro conjI w1 e1 w2 e2 w3 e3 w4 e4 w5 e5 w6 w7 w8)
qed


text \<open>
  The claim as stated fails for a payload whose only price is the positive number 0.004: it
  is accepted by the scan of the price fields, and \<^verbatim>\<open>Math.round(0.4) / 100\<close> is 0.
\<close>

theorem extractPriceEnhanced_counterexample:
  "getProp tinyPrice ''price'' = JNum (4 / 1000) \<and> (0::rat) < 4 / 1000 \<and>
   extractPriceEnhanced exampleBuiltins 0 tinyPrice = Inr 0"
  by code_simp

section \<open>Properties of the selling-products listing\<close>





















section \<open>Properties of order submission\<close>

lemma isDigit_char_of: "d < 10 \<Longrightarrow> isDigit (char_of (48 + d :: nat))"
  by (simp add: isDigit_def)

lemma natToString_digits: "list_all isDigit (natToString n)"
proof (induction n rule: natToString.induct)
  case (1 n)
  show ?case
  proof (cases "n < 10")
    case True
    then show ?thesis by (subst natToString.simps) (simp add: isDigit_char_of)
  next
    case False
    with 1 have "list_all isDigit (natToString (n div 10))" by simp
    moreover have "isDigit (char_of (48 + n mod 10))" by (rule isDigit_char_of) simp
    ultimately show ?thesis using False by (subst natToString.simps) simp
  qed
qed

lemma natToString_length_ge: "10 ^ k \<le> n \<Longrightarrow> k < length (natToString n)"
proof (induction n arbitrary: k rule: natToString.induct)
  case (1 n)
  show ?case
  proof (cases "n < 10")
    case True
    have "k = 0"
    proof (cases k)
      case 0
      then show ?thesis .
    next
      case (Suc j)
      have "(10::nat) * 1 \<le> 10 * 10 ^ j" by (intro mult_le_mono2) simp
      with 1(2) True Suc show ?thesis by simp
    qed
    then show ?thesis using True by (subst natToString.simps) simp
  next
    case False
    show ?thesis
    proof (cases k)
      case 0
      then show ?thesis using False by (subst natToString.simps) simp
    next
      case (Suc j)
      with 1(2) have "10 ^ j \<le> n div 10" by (simp add: less_eq_div_iff_mult_less_eq mult.commute)
      with 1(1)[OF False] have "j < length (natToString (n div 10))" by simp
      then show ?thesis using False Suc by (subst natToString.simps) simp
    qed
  qed
qed

lemma natToString_length_le: "n < 10 ^ k \<Longrightarrow> 0 < k \<Longrightarrow> length (natToString n) \<le> k"
proof (induction n arbitrary: k rule: natToString.induct)
  case (1 n)
  show ?case
  proof (cases "n < 10")
    case True
    then show ?thesis using 1(3) by (subst natToString.simps) simp
  next
    case False
    obtain j where k: "k = Suc j" using 1(3) by (cases k) auto
    have "j \<noteq> 0" using False 1(2) k by (cases j) auto
    moreover have "n div 10 < 10 ^ j" using 1(2) k by (simp add: div_less_iff_less_mult mult.commute)
    ultimately have "length (natToString (n div 10)) \<le> j" using 1(1)[OF False, of j] by simp
    then show ?thesis using False k by (subst natToString.simps) simp
  qed
qed

lemma generateOrderNumber_shape:
  assumes "100000 \<le> now" "0 \<le> rnd" "rnd < 1"
  shows "hbOrderNumber (JStr (generateOrderNumber now rnd))"
proof -
  let ?ts = "sliceLast 6 (intToString now)"
  let ?rn = "padStart 3 (CHR ''0'') (intToString \<lfloor>rnd * 1000\<rfloor>)"
  have now: "intToString now = natToString (nat now)" using assms by (simp add: intToString_def)
  have "10 ^ 5 \<le> nat now" using assms by simp
  then have len: "6 \<le> length (natToString (nat now))"
    using natToString_length_ge[of 5 "nat now"] by simp
  then have l1: "length ?ts = 6" by (simp add: sliceLast_def now)
  have d1: "list_all isDigit ?ts"
    using natToString_digits[of "nat now"]
    by (simp add: sliceLast_def now list_all_iff) (meson in_set_dropD)
  have f0: "0 \<le> \<lfloor>rnd * 1000\<rfloor>" using assms by simp
  have "rnd * 1000 < 1000" using assms by simp
  then have f1: "\<lfloor>rnd * 1000\<rfloor> < 1000" by (simp add: floor_less_iff)
  have rn: "intToString \<lfloor>rnd * 1000\<rfloor> = natToString (nat \<lfloor>rnd * 1000\<rfloor>)"
    using f0 by (simp add: intToString_def)
  have "nat \<lfloor>rnd * 1000\<rfloor> < 10 ^ 3" using f0 f1 by (simp add: nat_less_iff)
  then have len3: "length (natToString (nat \<lfloor>rnd * 1000\<rfloor>)) \<le> 3"
    by (intro natToString_length_le) simp_all
  then have l2: "length ?rn = 3" by (simp add: padStart_def rn)
  have z: "isDigit (CHR ''0'')" by (simp add: isDigit_def)
  have d2: "list_all isDigit ?rn"
    using natToString_digits[of "nat \<lfloor>rnd * 1000\<rfloor>"] z
    by (auto simp: padStart_def rn list_all_iff)
  show ?thesis
    using l1 l2 d1 d2 by (simp add: hbOrderNumber_def generateOrderNumber_def Let_def)
qed

lemma generateOrderNumber_truthy: "generateOrderNumber now rnd \<noteq> []"
  by (simp add: generateOrderNumber_def Let_def)

lemma orElse_truthy: "truthy d \<Longrightarrow> truthy (orElse a d)"
  by (simp add: orElse_def)

lemma processOrderResponse_truthy:
  "truthy (orderNumber (data (processOrderResponse b now rnd response)))"
  by (simp add: processOrderResponse_def createFallbackOrderResponse_def generateOrderNumber_truthy
      orElse_truthy split: sum.splits)

lemma orderRequest_truthy:
  "orderRequest b now rnd tf httpPost order k = Inr v \<Longrightarrow> truthy (orderNumber (data v))"
  by (auto simp: orderRequest_def processOrderResponse_truthy split: sum.splits)

lemma createOrder_cases:
  "(\<exists>e. fst (makeAuthenticatedRequest post now (orderRequest b now rnd tf httpPost order) s) = Inl e \<and>
        fst (createOrder b post tf httpPost now rnd order s) = createFallbackOrderResponse b now rnd)
   \<or> (\<exists>k. orderRequest b now rnd tf httpPost order k = Inr (fst (createOrder b post tf httpPost now rnd order s)))"
proof (cases "fst (makeAuthenticatedRequest post now (orderRequest b now rnd tf httpPost order) s)")
  case (Inl e)
  then show ?thesis
    by (cases "makeAuthenticatedRequest post now (orderRequest b now rnd tf httpPost order) s")
       (simp add: createOrder_def)
next
  case (Inr v)
  then have "fst (createOrder b post tf httpPost now rnd order s) = v"
    by (cases "makeAuthenticatedRequest post now (orderRequest b now rnd tf httpPost order) s")
       (simp add: createOrder_def)
  with makeAuthenticatedRequest_source[OF Inr] show ?thesis by simp
qed

lemma truthy_JStr: "truthy v \<Longrightarrow> v = JStr t \<Longrightarrow> t \<noteq> []"
  by simp

lemma digit_chars:
  "char_of (48::nat) = CHR ''0''" "char_of (49::nat) = CHR ''1''" "char_of (50::nat) = CHR ''2''"
  "char_of (51::nat) = CHR ''3''" "char_of (52::nat) = CHR ''4''" "char_of (53::nat) = CHR ''5''"
  "char_of (54::nat) = CHR ''6''" "char_of (55::nat) = CHR ''7''" "char_of (56::nat) = CHR ''8''"
  "char_of (57::nat) = CHR ''9''"
  by code_simp+

lemma order_number_example: "generateOrderNumber 1700000000000 (1 / 2) = ''HB000000500''"
  by (simp add: generateOrderNumber_def intToString_def natToString.simps sliceLast_def padStart_def
      digit_chars Let_def)

text \<open>
  Claim C1. Let the clock read at least 100000 (any time later than 100 seconds after the
  epoch) and let the random draw lie in \<open>[0, 1)\<close>. For every order, every state of the service
  and every behaviour of the remote side, \<^verbatim>\<open>createOrder\<close> delivers an order response, never an
  error, and its order number is truthy, hence not the empty string. When the wrapped
  request fails (in authentication, in building the request body, in transport, or with
  every request answered by an error) the response is the synthesized one: \<^verbatim>\<open>isOffline\<close> is
  true and the order number is \<^verbatim>\<open>HB\<close>, six digits and three digits. The same holds when
  processing the response throws, which it does on a \<^verbatim>\<open>null\<close> or \<^verbatim>\<open>undefined\<close> response.
\<close>

theorem createOrder_terminal:
  assumes "100000 \<le> now" and "0 \<le> rnd" and "rnd < 1"
  shows
    "truthy (orderNumber (data (fst (createOrder b post tf httpPost now rnd order s)))) \<and>
     (\<forall>t. orderNumber (data (fst (createOrder b post tf httpPost now rnd order s))) = JStr t \<longrightarrow> t \<noteq> []) \<and>
     ((\<exists>e. fst (makeAuthenticatedRequest post now (orderRequest b now rnd tf httpPost order) s) = Inl e) \<longrightarrow>
        isOffline (fst (createOrder b post tf httpPost now rnd order s)) = Some True \<and>
        isSuccess (fst (createOrder b post tf httpPost now rnd order s)) \<and>
        hbOrderNumber (orderNumber (data (fst (createOrder b post tf httpPost now rnd order s))))) \<and>
     ((\<forall>k. \<exists>e. orderRequest b now rnd tf httpPost order k = Inl e) \<longrightarrow>
        isOffline (fst (createOrder b post tf httpPost now rnd order s)) = Some True \<and>
        hbOrderNumber (orderNumber (data (fst (createOrder b post tf httpPost now rnd order s))))) \<and>
     (tf order = Inl e \<longrightarrow> orderRequest b now rnd tf httpPost order k = Inl e) \<and>
     (tf order = Inr body \<and> httpPost body k = Inl e \<longrightarrow> orderRequest b now rnd tf httpPost order k = Inl e) \<and>
     (nullish response \<longrightarrow>
        isOffline (processOrderResponse b now rnd response) = Some True \<and>
        hbOrderNumber (orderNumber (data (processOrderResponse b now rnd response))))"
proof -
  let ?res = "fst (createOrder b post tf httpPost now rnd order s)"
  have hb: "hbOrderNumber (JStr (generateOrderNumber now rnd))"
    by (rule generateOrderNumber_shape[OF assms])
  have fb: "isOffline (createFallbackOrderResponse b now rnd) = Some True"
    "isSuccess (createFallbackOrderResponse b now rnd)"
    "orderNumber (data (createFallbackOrderResponse b now rnd)) = JStr (generateOrderNumber now rnd)"
    by (simp_all add: createFallbackOrderResponse_def)
  have t: "truthy (orderNumber (data ?res))"
    using createOrder_cases[of post now b rnd tf httpPost order s]
    by (auto simp: fb generateOrderNumber_truthy dest: orderRequest_truthy)
  have fail: "isOffline ?res = Some True \<and> isSuccess ?res \<and> hbOrderNumber (orderNumber (data ?res))"
    if "\<exists>e. fst (makeAuthenticatedRequest post now (orderRequest b now rnd tf httpPost order) s) = Inl e"
    using that createOrder_cases[of post now b rnd tf httpPost order s] hb
    by (cases "makeAuthenticatedRequest post now (orderRequest b now rnd tf httpPost order) s")
       (auto simp: fb createOrder_def)
  have allfail: "isOffline ?res = Some True \<and> hbOrderNumber (orderNumber (data ?res))"
    if a: "\<forall>k. \<exists>e. orderRequest b now rnd tf httpPost order k = Inl e"
  proof -
    have "\<exists>e. fst (makeAuthenticatedRequest post now (orderRequest b now rnd tf httpPost order) s) = Inl e"
    proof (cases "fst (makeAuthenticatedRequest post now (orderRequest b now rnd tf httpPost order) s)")
      case (Inl e)
      then show ?thesis by simp
    next
      case (Inr v)
      from makeAuthenticatedRequest_source[OF Inr] a show ?thesis by (metis sum.distinct(1))
    qed
    from fail[OF this] show ?thesis by simp
  qed
  have nul: "isOffline (processOrderResponse b now rnd response) = Some True \<and>
        hbOrderNumber (orderNumber (data (processOrderResponse b now rnd response)))"
    if "nullish response"
    using that hb by (simp add: processOrderResponse_def extractOrderData_def fb)
  have r1: "orderRequest b now rnd tf httpPost order k = Inl e" if "tf order = Inl e"
    using that by (simp add: orderRequest_def)
  have r2: "orderRequest b now rnd tf httpPost order k = Inl e" if "tf order = Inr body \<and> httpPost body k = Inl e"
    using that by (simp add: orderRequest_def)
  show ?thesis
    using t truthy_JStr[OF t] fail allfail nul r1 r2 by blast
qed

theorem createOrder_terminal_witness:
  "(100000::int) \<le> 1700000000000 \<and> (0::rat) \<le> 1 / 2 \<and> (1::rat) / 2 < 1 \<and>
   fst (makeAuthenticatedRequest (\<lambda>k. loginOk) 1700000000000
          (orderRequest exampleBuiltins 1700000000000 (1 / 2) Inr unreachable ()) newService)
     = Inl (HttpErrorResponse 0 ''Unknown Error'') \<and>
   isOffline (fst (createOrder exampleBuiltins (\<lambda>k. loginOk) Inr unreachable 1700000000000 (1 / 2) () newService))
     = Some True \<and>
   orderNumber (data (fst (createOrder exampleBuiltins (\<lambda>k. loginOk) Inr unreachable 1700000000000 (1 / 2) () newService)))
     = JStr ''HB000000500'' \<and>
   hbOrderNumber (orderNumber (data
     (fst (createOrder exampleBuiltins (\<lambda>k. loginOk) Inr unreachable 1700000000000 (1 / 2) () newService)))) \<and>
   truthy (orderNumber (data
     (fst (createOrder exampleBuiltins (\<lambda>k. loginOk) Inr unreachable 1700000000000 (1 / 2) () newService)))) \<and>
   isOffline (processOrderResponse exampleBuiltins 1700000000000 (1 / 2) JNull) = Some True"
proof -
  have h: "(100000::int) \<le> 1700000000000" "(0::rat) \<le> 1 / 2" "(1::rat) / 2 < 1" by simp_all
  have all: "\<forall>k. \<exists>e. orderRequest exampleBuiltins 1700000000000 (1 / 2) Inr unreachable () k = Inl e"
    by (simp add: orderRequest_def unreachable_def)
  have f: "fst (makeAuthenticatedRequest (\<lambda>k. loginOk) 1700000000000
          (orderRequest exampleBuiltins 1700000000000 (1 / 2) Inr unreachable ()) newService)
     = Inl (HttpErrorResponse 0 ''Unknown Error'')"
    by (simp add: makeAuthenticatedRequest_def ensureAuthenticated_def isTokenStillValid_def hasToken_def
        newService_def refreshToken_def subscribeRequest_def subscribeAuth_def subscribeRefresh_def
        login_def loginSettled_def loginOk_def extractTokenFromResponse_def possibleTokenPaths_def
        optProp_def onRequestError_def invoke_def orderRequest_def unreachable_def)
  then have fb: "fst (createOrder exampleBuiltins (\<lambda>k. loginOk) Inr unreachable 1700000000000 (1 / 2) () newService)
      = createFallbackOrderResponse exampleBuiltins 1700000000000 (1 / 2)"
    by (cases "makeAuthenticatedRequest (\<lambda>k. loginOk) 1700000000000
          (orderRequest exampleBuiltins 1700000000000 (1 / 2) Inr unreachable ()) newService")
       (simp add: createOrder_def)
  have n: "orderNumber (data (fst (createOrder exampleBuiltins (\<lambda>k. loginOk) Inr unreachable 1700000000000 (1 / 2) () newService)))
     = JStr ''HB000000500''"
    by (simp add: fb createFallbackOrderResponse_def order_number_example)
  have nl: "nullish JNull" by simp
  from createOrder_terminal[OF h, where b=exampleBuiltins and post="\<lambda>k. loginOk" and tf=Inr
      and httpPost=unreachable and order="()" and s=newService and response=JNull] f n nl h
  show ?thesis by simp
qed

end
